theory Spec2Isabelle
  imports Main "HOL-Library.Char_ord" "HOL-Library.List_Lexorder" "HOL-Library.Sublist"
begin

section \<open>Strings\<close>

text \<open>
  JavaScript strings are modelled as \<open>string\<close>. The helpers below are the library calls the
  sources make on them: \<open>String.prototype.startsWith\<close>, \<open>Array.prototype.join\<close>,
  \<open>String.prototype.split\<close> on a one-character separator, and the decimal rendering of a
  non-negative integer (what a template literal prints for such a number).
\<close>

definition startsWith :: "string \<Rightarrow> string \<Rightarrow> bool" where
  "startsWith s p = (take (length p) s = p)"

fun join :: "string \<Rightarrow> string list \<Rightarrow> string" where
  "join sep [] = []"
| "join sep [x] = x"
| "join sep (x # y # ys) = x @ sep @ join sep (y # ys)"

fun split :: "char \<Rightarrow> string \<Rightarrow> string list" where
  "split sep [] = [[]]"
| "split sep (c # cs) =
     (if c = sep then [] # split sep cs
      else (case split sep cs of [] \<Rightarrow> [[c]] | w # ws \<Rightarrow> (c # w) # ws))"

fun string_of_nat :: "nat \<Rightarrow> string" where
  "string_of_nat n =
     (if n < 10 then [''0123456789'' ! n]
      else string_of_nat (n div 10) @ [''0123456789'' ! (n mod 10)])"

declare string_of_nat.simps [simp del]

definition string_of_int :: "int \<Rightarrow> string" where
  "string_of_int i = (if i < 0 then CHR ''-'' # string_of_nat (nat (- i)) else string_of_nat (nat i))"


section \<open>The program model: syntax kinds, nodes, source files\<close>

text \<open>
  The parser and type checker (ts-morph) are outside the repository. Their answers are data of
  the model: a node carries what the calls \<open>getKind\<close>, \<open>getText\<close>, \<open>getSymbol\<close>,
  \<open>getType\<close>, \<open>hasModifier\<close>, \<open>getHeritageClauses\<close>, \<open>getSourceFile\<close> and the line and
  column queries return for it, and its children in the order \<open>forEachChild\<close> visits them.
  \<open>SyntaxKind\<close> lists the kinds the sources name, together with the kinds needed to write
  down small programs; \<open>OtherKind\<close> stands for the remaining members of the enum.
\<close>

datatype (plugins only: code) SyntaxKind =
    SourceFileKind | ClassDeclaration | InterfaceDeclaration | EnumDeclaration
  | FunctionDeclaration | FunctionExpression | ArrowFunction
  | MethodDeclaration | MethodSignature | PropertyDeclaration | PropertySignature
  | VariableDeclaration | VariableDeclarationList | VariableStatement
  | Parameter | TypeAliasDeclaration | ModuleDeclaration | ModuleBlock
  | NamespaceKeyword | GetAccessor | SetAccessor
  | IfStatement | ForStatement | ForInStatement | ForOfStatement | WhileStatement
  | DoStatement | ConditionalExpression | CatchClause | CaseClause
  | BinaryExpression | CallExpression | ImportSpecifier | Identifier
  | EqualsToken | PlusEqualsToken | PlusToken | AmpersandAmpersandToken | BarBarToken | QuestionQuestionToken
  | PublicKeyword | PrivateKeyword | ProtectedKeyword | StaticKeyword | AsyncKeyword
  | ReadonlyKeyword | AbstractKeyword | ExtendsKeyword | ImplementsKeyword
  | Block | ReturnStatement | ExpressionStatement | PropertyAccessExpression | ThisKeyword
  | NumericLiteral | EndOfFileToken | OtherKind nat

record Position =
  line :: int
  character :: int

record Location =
  locFile :: string
  position :: Position
  endPosition :: "Position option"

text \<open>A symbol as the checker reports it: its name and its JSDoc tags (name, text).\<close>

record Symbol =
  symName :: string
  jsDocTags :: "(string \<times> string) list"

text \<open>A type node of a heritage clause: its text and the location \<open>nodeToLocation\<close> gives it.\<close>

record TypeNodeRef =
  tnText :: string
  tnLocation :: Location

record HeritageClause =
  hcToken :: SyntaxKind
  hcTypeNodes :: "TypeNodeRef list"

record SourceFileInfo =
  filePath :: string
  fullText :: string
  endLineNumber :: int

text \<open>
  \<open>startLine\<close>, \<open>startColumn\<close>, \<open>endLine\<close>, \<open>endColumn\<close> are the 1-based answers of
  \<open>getLineAndColumnAtPos\<close> at \<open>getStart()\<close> and \<open>getEnd()\<close>. \<open>modifiers\<close> is \<open>None\<close> for
  a node that is not modifierable. \<open>typeRef\<close> names the node's type in the checker's type table.
\<close>

record NodeInfo =
  kind :: SyntaxKind
  nodeText :: string
  startLine :: int
  startColumn :: int
  endLine :: int
  endColumn :: int
  symbol :: "Symbol option"
  typeText :: string
  typeRef :: nat
  modifiers :: "SyntaxKind list option"
  heritageClauses :: "HeritageClause list"
  sourceFileInfo :: SourceFileInfo

datatype Node = Node (info: NodeInfo) (children: "Node list")

abbreviation getKind :: "Node \<Rightarrow> SyntaxKind" where
  "getKind n \<equiv> kind (info n)"

text \<open>\<open>forEachDescendant\<close> visits every descendant, depth first, parents before children.\<close>

fun descendants :: "Node \<Rightarrow> Node list" where
  "descendants (Node i cs) = concat (map (\<lambda>c. c # descendants c) cs)"


section \<open>utils.ts\<close>

definition nodeToLocation :: "Node \<Rightarrow> Location" where
  "nodeToLocation node =
     \<lparr> locFile = filePath (sourceFileInfo (info node)),
       position = \<lparr> line = startLine (info node) - 1, character = startColumn (info node) - 1 \<rparr>,
       endPosition = Some \<lparr> line = endLine (info node) - 1, character = endColumn (info node) - 1 \<rparr> \<rparr>"

datatype SymbolKind =
    SkClass | SkInterface | SkEnum | SkFunction | SkMethod | SkProperty | SkVariable
  | SkParameter | SkType | SkNamespace | SkModule

fun symbolKindOf :: "SyntaxKind \<Rightarrow> SymbolKind" where
  "symbolKindOf ClassDeclaration = SkClass"
| "symbolKindOf InterfaceDeclaration = SkInterface"
| "symbolKindOf EnumDeclaration = SkEnum"
| "symbolKindOf FunctionDeclaration = SkFunction"
| "symbolKindOf FunctionExpression = SkFunction"
| "symbolKindOf ArrowFunction = SkFunction"
| "symbolKindOf MethodDeclaration = SkMethod"
| "symbolKindOf MethodSignature = SkMethod"
| "symbolKindOf PropertyDeclaration = SkProperty"
| "symbolKindOf PropertySignature = SkProperty"
| "symbolKindOf VariableDeclaration = SkVariable"
| "symbolKindOf Parameter = SkParameter"
| "symbolKindOf TypeAliasDeclaration = SkType"
| "symbolKindOf ModuleDeclaration = SkModule"
| "symbolKindOf NamespaceKeyword = SkNamespace"
| "symbolKindOf _ = SkVariable"

definition getSymbolKind :: "Node \<Rightarrow> SymbolKind" where
  "getSymbolKind node = symbolKindOf (getKind node)"

text \<open>The test of the callback of \<open>getNodeComplexity\<close> on the kind of a descendant.\<close>

definition countsTowardsComplexity :: "SyntaxKind \<Rightarrow> bool" where
  "countsTowardsComplexity k =
     (k = IfStatement \<or> k = ForStatement \<or> k = ForInStatement \<or> k = ForOfStatement \<or>
      k = WhileStatement \<or> k = DoStatement \<or> k = ConditionalExpression \<or>
      k = CatchClause \<or> k = CaseClause \<or> k = BinaryExpression)"

definition getNodeComplexity :: "Node \<Rightarrow> nat" where
  "getNodeComplexity node =
     foldl (\<lambda>complexity child.
              if countsTowardsComplexity (getKind child) then complexity + 1 else complexity)
           1 (descendants node)"

definition getTypeString :: "string \<Rightarrow> string" where
  "getTypeString txt =
     (if length txt > 100 then take 97 txt @ ''...'' else txt)"


subsection \<open>Node's \<open>path\<close> module (POSIX)\<close>

text \<open>
  \<open>validatePath\<close> calls \<open>path.normalize\<close> and \<open>path.relative\<close> of Node's library. They are
  modelled on the segments between slashes, as the library's \<open>normalizeString\<close> treats them:
  an empty segment and \<open>.\<close> are dropped, \<open>..\<close> removes the segment before it, or stays when
  there is none and the path is relative. The accumulator of \<open>normalizeStep\<close> holds the segments
  kept so far, last first. A resolved path is absolute and is given by its list of segments.
\<close>

definition dot :: string where
  "dot = ''.''"

definition dotdot :: string where
  "dotdot = ''..''"

definition normalizeStep :: "bool \<Rightarrow> string list \<Rightarrow> string \<Rightarrow> string list" where
  "normalizeStep allowAboveRoot res seg =
     (if seg = [] \<or> seg = dot then res
      else if seg = dotdot then
        (case res of
           [] \<Rightarrow> (if allowAboveRoot then [dotdot] else [])
         | s # rest \<Rightarrow>
             if s = dotdot then (if allowAboveRoot then dotdot # res else res) else rest)
      else seg # res)"

definition normalizeString :: "string \<Rightarrow> bool \<Rightarrow> string list" where
  "normalizeString path allowAboveRoot =
     rev (foldl (normalizeStep allowAboveRoot) [] (split CHR ''/'' path))"

definition isAbsolute :: "string \<Rightarrow> bool" where
  "isAbsolute path = (path \<noteq> [] \<and> hd path = CHR ''/'')"

definition path_normalize :: "string \<Rightarrow> string" where
  "path_normalize path =
     (if path = [] then ''.''
      else
        (let trailingSeparator = (last path = CHR ''/'');
             norm = join ''/'' (normalizeString path (\<not> isAbsolute path))
         in
         if norm = [] then
           (if isAbsolute path then ''/'' else if trailingSeparator then ''./'' else ''.'')
         else
           (if isAbsolute path then ''/'' else []) @ norm @
           (if trailingSeparator then ''/'' else [])))"

text \<open>\<open>path.resolve\<close> of one path against the working directory \<open>wd\<close>.\<close>

definition path_resolve :: "string \<Rightarrow> string \<Rightarrow> string list" where
  "path_resolve wd path =
     (let resolvedPath = (if path = [] then [] else path @ ''/'') in
      if isAbsolute path then normalizeString resolvedPath False
      else normalizeString (wd @ ''/'' @ resolvedPath) (\<not> isAbsolute wd))"

definition path_relative :: "string \<Rightarrow> string \<Rightarrow> string \<Rightarrow> string" where
  "path_relative wd fromPath toPath =
     (if fromPath = toPath then []
      else
        (let fromSegs = path_resolve wd fromPath;
             toSegs = path_resolve wd toPath
         in
         if fromSegs = toSegs then []
         else
           (let common = length (longest_common_prefix fromSegs toSegs) in
            join ''/'' (replicate (length fromSegs - common) dotdot @ drop common toSegs))))"

subsection \<open>Errors and path validation\<close>

datatype ErrorCode =
  FILE_NOT_FOUND | PARSE_ERROR | TIMEOUT | MEMORY_LIMIT | INVALID_PATTERN | SCOPE_ERROR

text \<open>
  An \<open>AnalysisError\<close> carries its code and message; \<open>LibraryError\<close> is an exception thrown by
  the parser library itself (a file that cannot be loaded).
\<close>

datatype error = AnalysisError ErrorCode string | LibraryError string

definition excludePatterns :: "string list" where
  "excludePatterns = [''**/node_modules/**'', ''**/.git/**'', ''**/dist/**'', ''**/build/**'']"

text \<open>
  \<open>validatePath\<close>, with the working directory \<open>process.cwd()\<close> and the glob matcher
  \<open>minimatch\<close> (a library function) as parameters.
\<close>

definition validatePath :: "string \<Rightarrow> (string \<Rightarrow> string \<Rightarrow> bool) \<Rightarrow> string \<Rightarrow> error + unit" where
  "validatePath wd minimatch fp =
     (let normalizedPath = path_normalize fp;
          relativePath = path_relative wd wd normalizedPath
      in
      if startsWith relativePath ''..'' then
        Inl (AnalysisError SCOPE_ERROR ''Path is outside allowed scope'')
      else if list_ex (\<lambda>pattern. minimatch normalizedPath pattern) excludePatterns then
        Inl (AnalysisError SCOPE_ERROR ''Path matches excluded pattern'')
      else Inr ())"


section \<open>analyzer.ts\<close>

record SymbolReference =
  srName :: string
  srLocation :: Location
  srKind :: SymbolKind

text \<open>
  The relationships object of a \<open>SymbolInfo\<close>. The fields \<open>usedBy\<close> and \<open>uses\<close> of the
  TypeScript interface are never assigned by this code and are left out.
\<close>

record Relationships =
  relExtends :: "SymbolReference list option"
  relImplements :: "SymbolReference list option"

record SymbolInfo =
  siName :: string
  siKind :: SymbolKind
  siType :: string
  siDocumentation :: "string option"
  siModifiers :: "string list option"
  siLocation :: Location
  siRelationships :: "Relationships option"

definition extractRelationships :: "Node \<Rightarrow> Relationships option" where
  "extractRelationships node =
     (let relationships = \<lparr> relExtends = None, relImplements = None \<rparr>;
          relationships =
            (if getKind node = ClassDeclaration \<or> getKind node = InterfaceDeclaration then
               (let heritage = heritageClauses (info node);
                    relationships =
                      (case find (\<lambda>h. hcToken h = ExtendsKeyword) heritage of
                         None \<Rightarrow> relationships
                       | Some extendsClause \<Rightarrow>
                           (let extendsNodes = hcTypeNodes extendsClause in
                            if length extendsNodes > 0 then
                              relationships \<lparr> relExtends := Some (map (\<lambda>expr.
                                \<lparr> srName = tnText expr, srLocation = tnLocation expr, srKind = SkClass \<rparr>)
                                extendsNodes) \<rparr>
                            else relationships))
                in
                if getKind node = ClassDeclaration then
                  (let implementsNodes =
                         (case find (\<lambda>h. hcToken h = ImplementsKeyword) heritage of
                            None \<Rightarrow> [] | Some c \<Rightarrow> hcTypeNodes c)
                   in
                   if length implementsNodes > 0 then
                     relationships \<lparr> relImplements := Some (map (\<lambda>expr.
                       \<lparr> srName = tnText expr, srLocation = tnLocation expr, srKind = SkInterface \<rparr>)
                       implementsNodes) \<rparr>
                   else relationships)
                else relationships)
             else relationships)
      in
      if relExtends relationships = None \<and> relImplements relationships = None then None
      else Some relationships)"

definition hasModifier :: "Node \<Rightarrow> SyntaxKind \<Rightarrow> bool" where
  "hasModifier node k = (case modifiers (info node) of None \<Rightarrow> False | Some ms \<Rightarrow> k \<in> set ms)"

text \<open>
  The array \<open>modifiers\<close> and the string \<open>documentation\<close> that \<open>extractSymbolInfo\<close> builds.
\<close>

definition modifierNames :: "Node \<Rightarrow> string list" where
  "modifierNames node =
     (if modifiers (info node) \<noteq> None then
        (if hasModifier node PublicKeyword then [''public''] else []) @
        (if hasModifier node PrivateKeyword then [''private''] else []) @
        (if hasModifier node ProtectedKeyword then [''protected''] else []) @
        (if hasModifier node StaticKeyword then [''static''] else []) @
        (if hasModifier node AsyncKeyword then [''async''] else []) @
        (if hasModifier node ReadonlyKeyword then [''readonly''] else []) @
        (if hasModifier node AbstractKeyword then [''abstract''] else [])
      else [])"

definition documentationOf :: "Symbol \<Rightarrow> string" where
  "documentationOf smb =
     join [CHR 0x0A]
       (map (\<lambda>(tagName, tagText). ''@'' @ tagName @ (if tagText \<noteq> [] then '' '' @ tagText else []))
            (jsDocTags smb))"

definition extractSymbolInfo :: "Node \<Rightarrow> bool \<Rightarrow> SymbolInfo option" where
  "extractSymbolInfo node includePrivate =
     (case symbol (info node) of
        None \<Rightarrow> None
      | Some smb \<Rightarrow>
          (let name = symName smb in
           if \<not> includePrivate \<and> startsWith name ''_'' then None
           else
             (let knd = getSymbolKind node;
                  mods = modifierNames node;
                  documentation = documentationOf smb
              in
              Some \<lparr> siName = name,
                     siKind = knd,
                     siType = getTypeString (typeText (info node)),
                     siDocumentation = (if documentation \<noteq> [] then Some documentation else None),
                     siModifiers = (if length mods > 0 then Some mods else None),
                     siLocation = nodeToLocation node,
                     siRelationships = extractRelationships node \<rparr>)))"

definition isDeclarationNode :: "Node \<Rightarrow> bool" where
  "isDeclarationNode node =
     (getKind node = ClassDeclaration \<or>
      getKind node = InterfaceDeclaration \<or>
      getKind node = FunctionDeclaration \<or>
      getKind node = VariableDeclaration \<or>
      getKind node = TypeAliasDeclaration \<or>
      getKind node = EnumDeclaration \<or>
      getKind node = MethodDeclaration \<or>
      getKind node = PropertyDeclaration \<or>
      getKind node = GetAccessor \<or>
      getKind node = SetAccessor)"

text \<open>
  What the source file object answers beyond its tree: its import and export declarations, the
  names of its exported declarations, and the diagnostics of the checker.
\<close>

record ImportDeclaration =
  moduleSpecifierValue :: string
  namedImports :: "string list"
  defaultImport :: "string option"
  namespaceImport :: "string option"
  isTypeOnly :: bool
  importNode :: Node

datatype DiagnosticCategory = DcWarning | DcError | DcSuggestion | DcMessage

text \<open>
  A diagnostic of the checker: \<open>rdColumn\<close> is the column \<open>getLineAndColumnAtPos\<close> gives for
  its start offset.
\<close>

record RawDiagnostic =
  rdMessageText :: string
  rdCategory :: DiagnosticCategory
  rdLineNumber :: "int option"
  rdStart :: "int option"
  rdColumn :: int
  rdCode :: "int option"

record SourceFile =
  root :: Node
  importDeclarations :: "ImportDeclaration list"
  exportDeclarations :: "string list list"
  exportedDeclarations :: "string list"
  preEmitDiagnostics :: "RawDiagnostic list"

definition getFilePath :: "SourceFile \<Rightarrow> string" where
  "getFilePath sf = filePath (sourceFileInfo (info (root sf)))"

definition getFullText :: "SourceFile \<Rightarrow> string" where
  "getFullText sf = fullText (sourceFileInfo (info (root sf)))"

definition getFunctions :: "SourceFile \<Rightarrow> Node list" where
  "getFunctions sf = filter (\<lambda>n. getKind n = FunctionDeclaration) (children (root sf))"

definition getClasses :: "SourceFile \<Rightarrow> Node list" where
  "getClasses sf = filter (\<lambda>n. getKind n = ClassDeclaration) (children (root sf))"

definition getMethods :: "Node \<Rightarrow> Node list" where
  "getMethods cls = filter (\<lambda>n. getKind n = MethodDeclaration) (children cls)"

datatype DiagnosticSeverity = DsError | DsWarning | DsInfo

record Diagnostic =
  dgMessage :: string
  dgSeverity :: DiagnosticSeverity
  dgLocation :: Location
  dgCode :: "string option"

record ImportInfo =
  iiModuleSpecifier :: string
  iiSymbols :: "string list"
  iiIsTypeOnly :: bool
  iiLocation :: Location

fun getDiagnosticSeverity :: "DiagnosticCategory \<Rightarrow> DiagnosticSeverity" where
  "getDiagnosticSeverity DcError = DsError"
| "getDiagnosticSeverity DcWarning = DsWarning"
| "getDiagnosticSeverity _ = DsInfo"

datatype AnalysisType = AtSymbols | AtDependencies | AtComplexity | AtAll

record Analysis =
  anSymbols :: "SymbolInfo list"
  anDiagnostics :: "Diagnostic list"
  anImports :: "ImportInfo list"
  anExports :: "string list"
  anComplexity :: nat

definition truthy :: "string option \<Rightarrow> string list" where
  "truthy v = (case v of None \<Rightarrow> [] | Some t \<Rightarrow> if t \<noteq> [] then [t] else [])"

definition analyzeSourceFile :: "SourceFile \<Rightarrow> AnalysisType \<Rightarrow> int \<Rightarrow> bool \<Rightarrow> Analysis" where
  "analyzeSourceFile sourceFile analysisType depth includePrivate =
     (let symbols =
            (if analysisType = AtSymbols \<or> analysisType = AtAll then
               List.map_filter
                 (\<lambda>node. if isDeclarationNode node then extractSymbolInfo node includePrivate else None)
                 (descendants (root sourceFile))
             else []);
          imports =
            (if analysisType = AtDependencies \<or> analysisType = AtAll then
               List.map_filter
                 (\<lambda>importDecl.
                    (let allImports = truthy (defaultImport importDecl) @
                                      truthy (namespaceImport importDecl) @
                                      namedImports importDecl
                     in
                     if length allImports > 0 then
                       Some \<lparr> iiModuleSpecifier = moduleSpecifierValue importDecl,
                              iiSymbols = allImports,
                              iiIsTypeOnly = isTypeOnly importDecl,
                              iiLocation = nodeToLocation (importNode importDecl) \<rparr>
                     else None))
                 (importDeclarations sourceFile)
             else []);
          exports =
            (if analysisType = AtDependencies \<or> analysisType = AtAll then
               concat (exportDeclarations sourceFile) @ exportedDeclarations sourceFile
             else []);
          totalComplexity =
            (if analysisType = AtComplexity \<or> analysisType = AtAll then
               foldl (\<lambda>total method. total + getNodeComplexity method)
                 (foldl (\<lambda>total func. total + getNodeComplexity func) 0 (getFunctions sourceFile))
                 (concat (map getMethods (getClasses sourceFile)))
             else 0);
          diagnostics =
            map (\<lambda>diag.
                   \<lparr> dgMessage = rdMessageText diag,
                     dgSeverity = getDiagnosticSeverity (rdCategory diag),
                     dgLocation =
                       \<lparr> locFile = getFilePath sourceFile,
                         position =
                           \<lparr> line = (case rdLineNumber diag of
                                       None \<Rightarrow> 0 | Some l \<Rightarrow> if l \<noteq> 0 then l - 1 else 0),
                             character = (case rdStart diag of
                                       None \<Rightarrow> 0 | Some st \<Rightarrow> if st \<noteq> 0 then rdColumn diag - 1 else 0) \<rparr>,
                         endPosition = None \<rparr>,
                     dgCode = map_option string_of_int (rdCode diag) \<rparr>)
                (preEmitDiagnostics sourceFile)
      in
      \<lparr> anSymbols = symbols,
        anDiagnostics = diagnostics,
        anImports = imports,
        anExports = exports,
        anComplexity = totalComplexity \<rparr>)"


subsection \<open>Type hierarchies\<close>

text \<open>
  The checker's types are entries of a table indexed by \<open>typeRef\<close>: the symbol of the type
  (its name and its declarations) and the list \<open>getBaseTypes\<close> returns, as indices into the
  same table. The table may hold cycles. A declaration is a node together with the names of
  its type parameters (\<open>None\<close> when the node takes none).
\<close>

record TypeDeclaration =
  tdNode :: Node
  tdTypeParameters :: "string list option"

record TypeSymbol =
  tsName :: string
  tsDeclarations :: "TypeDeclaration list"

record TypeData =
  tySymbol :: "TypeSymbol option"
  tyBaseTypes :: "nat list"

datatype TypeKind = TkClass | TkInterface | TkEnum | TkType

record TypeInfo =
  tiName :: string
  tiKind :: TypeKind
  tiLocation :: Location
  tiGenerics :: "string list option"

datatype Direction = Ancestors | Descendants | Both

definition getTypeKind :: "Node \<Rightarrow> TypeKind" where
  "getTypeKind node =
     (if getKind node = ClassDeclaration then TkClass
      else if getKind node = InterfaceDeclaration then TkInterface
      else if getKind node = EnumDeclaration then TkEnum
      else TkType)"

definition getGenericParameters :: "TypeDeclaration \<Rightarrow> string list option" where
  "getGenericParameters d =
     (case tdTypeParameters d of
        None \<Rightarrow> None
      | Some params \<Rightarrow> if length params = 0 then None else Some params)"

text \<open>
  The inner function \<open>processType\<close> of \<open>getTypeHierarchy\<close>, with the captured variables
  \<open>visited\<close> and \<open>hierarchy\<close> passed through as a pair; \<open>processTypes\<close> is the
  \<open>forEach\<close> over the base types. The branch for descendants is empty in the source.
\<close>

function processType ::
    "(nat \<Rightarrow> TypeData) \<Rightarrow> Direction \<Rightarrow> int \<Rightarrow> nat \<Rightarrow> int \<Rightarrow>
     string set \<times> TypeInfo list \<Rightarrow> string set \<times> TypeInfo list"
  and processTypes ::
    "(nat \<Rightarrow> TypeData) \<Rightarrow> Direction \<Rightarrow> int \<Rightarrow> nat list \<Rightarrow> int \<Rightarrow>
     string set \<times> TypeInfo list \<Rightarrow> string set \<times> TypeInfo list"
  where
  "processType tbl direction maxDepth ty depth (visited, hierarchy) =
     (if depth > maxDepth then (visited, hierarchy)
      else
        (case tySymbol (tbl ty) of
           None \<Rightarrow> (visited, hierarchy)
         | Some smb \<Rightarrow>
             (if tsName smb \<in> visited then (visited, hierarchy)
              else
                (case tsDeclarations smb of
                   [] \<Rightarrow> (insert (tsName smb) visited, hierarchy)
                 | decl # _ \<Rightarrow>
                     (if direction = Ancestors \<or> direction = Both then
                        processTypes tbl direction maxDepth (tyBaseTypes (tbl ty)) (depth + 1)
                          (insert (tsName smb) visited,
                           hierarchy @
                             [\<lparr> tiName = tsName smb,
                                tiKind = getTypeKind (tdNode decl),
                                tiLocation = nodeToLocation (tdNode decl),
                                tiGenerics = getGenericParameters decl \<rparr>])
                      else
                        (insert (tsName smb) visited,
                         hierarchy @
                           [\<lparr> tiName = tsName smb,
                              tiKind = getTypeKind (tdNode decl),
                              tiLocation = nodeToLocation (tdNode decl),
                              tiGenerics = getGenericParameters decl \<rparr>]))))))"
| "processTypes tbl direction maxDepth [] depth st = st"
| "processTypes tbl direction maxDepth (baseType # rest) depth st =
     processTypes tbl direction maxDepth rest depth
       (processType tbl direction maxDepth baseType depth st)"
  by pat_completeness auto
termination
  by (relation "inv_image (less_than <*lex*> less_than)
        (\<lambda>x. case x of
           Inl (tbl, direction, maxDepth, ty, depth, st) \<Rightarrow> (nat (maxDepth + 1 - depth), 0)
         | Inr (tbl, direction, maxDepth, tys, depth, st) \<Rightarrow>
             (nat (maxDepth + 1 - depth), Suc (length tys)))")
     auto

definition getTypeHierarchy :: "(nat \<Rightarrow> TypeData) \<Rightarrow> Node \<Rightarrow> Direction \<Rightarrow> int \<Rightarrow> TypeInfo list" where
  "getTypeHierarchy tbl node direction maxDepth =
     snd (processType tbl direction maxDepth (typeRef (info node)) 0 ({}, []))"


section \<open>tools.ts\<close>

subsection \<open>Nodes with their position in the tree\<close>

text \<open>
  \<open>getParent\<close> needs the place of a node in its tree: a node reference is the root of the
  tree and the path of child indices that leads to the node. In a binary expression the
  children are the left operand, the operator token and the right operand.
\<close>

record NodeRef =
  refRoot :: Node
  refPath :: "nat list"

fun nodeAt :: "Node \<Rightarrow> nat list \<Rightarrow> Node option" where
  "nodeAt n [] = Some n"
| "nodeAt (Node i cs) (k # p) = (if k < length cs then nodeAt (cs ! k) p else None)"

definition getNode :: "NodeRef \<Rightarrow> Node option" where
  "getNode r = nodeAt (refRoot r) (refPath r)"

definition getParent :: "NodeRef \<Rightarrow> Node option" where
  "getParent r = (if refPath r = [] then None else nodeAt (refRoot r) (butlast (refPath r)))"

definition getOperatorToken :: "Node \<Rightarrow> Node option" where
  "getOperatorToken n = (case children n of [l, operator, r] \<Rightarrow> Some operator | _ \<Rightarrow> None)"

definition getLeft :: "Node \<Rightarrow> Node option" where
  "getLeft n = (case children n of [l, operator, r] \<Rightarrow> Some l | _ \<Rightarrow> None)"

subsection \<open>Helpers\<close>

definition nthOrEmpty :: "string list \<Rightarrow> int \<Rightarrow> string" where
  "nthOrEmpty xs i = (if 0 \<le> i \<and> i < int (length xs) then xs ! nat i else [])"

text \<open>\<open>Array.prototype.slice(0, n)\<close> for an integer \<open>n\<close>.\<close>

definition slice0 :: "'a list \<Rightarrow> int \<Rightarrow> 'a list" where
  "slice0 xs n = (if n \<ge> 0 then take (nat n) xs else take (length xs - nat (- n)) xs)"

definition getContext :: "Node \<Rightarrow> int \<Rightarrow> string" where
  "getContext node lines =
     (let sourceFile = sourceFileInfo (info node);
          start = startLine (info node);
          end' = min (start + lines) (endLineNumber sourceFile);
          lineTexts = map (\<lambda>i. nthOrEmpty (split (CHR 0x0A) (fullText sourceFile)) (i - 1)) [start..end']
      in join [CHR 0x0A] lineTexts)"

datatype ReferenceKind = RkRead | RkWrite | RkCall | RkImport

definition getReferenceKind :: "NodeRef \<Rightarrow> ReferenceKind" where
  "getReferenceKind node =
     (case getParent node of
        None \<Rightarrow> RkRead
      | Some parent \<Rightarrow>
          if getKind parent = CallExpression then RkCall
          else if getKind parent = ImportSpecifier then RkImport
          else if getKind parent = BinaryExpression \<and>
                  map_option getKind (getOperatorToken parent) = Some EqualsToken then RkWrite
          else RkRead)"

subsection \<open>The environment of a tool call\<close>

text \<open>
  What a tool call reads from outside: the working directory, the glob matcher, the files the
  parser can load (\<open>addSourceFileAtPath\<close> throws on a path for which \<open>fileSystem\<close> is
  \<open>None\<close>), the file search \<open>findFiles\<close>, the node at a position (\<open>getDescendantAtPos\<close>
  at the offset of the position), the language service's \<open>findReferences\<close> (groups of
  referencing nodes, given the files loaded so far and the identifier asked about) and the
  type table. A tool returns the list of files it has loaded, in order, together with its
  result or the error it throws.
\<close>

record Env =
  cwd :: string
  minimatch :: "string \<Rightarrow> string \<Rightarrow> bool"
  fileSystem :: "string \<Rightarrow> SourceFile option"
  findFiles :: "string \<Rightarrow> string list"
  descendantAtPos :: "SourceFile \<Rightarrow> Position \<Rightarrow> NodeRef option"
  languageService :: "string list \<Rightarrow> Node \<Rightarrow> NodeRef list list"
  typeTable :: "nat \<Rightarrow> TypeData"

definition addSourceFileAtPath :: "Env \<Rightarrow> string \<Rightarrow> error + SourceFile" where
  "addSourceFileAtPath env path =
     (case fileSystem env path of
        None \<Rightarrow> Inl (LibraryError (''File not found: '' @ path))
      | Some sf \<Rightarrow> Inr sf)"

text \<open>\<open>findSymbolAtPosition\<close>: the node at the position, with its reference.\<close>

definition findSymbolAtPosition :: "Env \<Rightarrow> SourceFile \<Rightarrow> Position \<Rightarrow> (NodeRef \<times> Node) option" where
  "findSymbolAtPosition env sourceFile pos =
     (case descendantAtPos env sourceFile pos of
        None \<Rightarrow> None
      | Some r \<Rightarrow> (case getNode r of None \<Rightarrow> None | Some n \<Rightarrow> Some (r, n)))"

subsection \<open>analyze_file\<close>

datatype OutputFormat = OfSummary | OfDetailed | OfFull

record AnalyzeFileParams =
  afFilePath :: string
  afAnalysisType :: AnalysisType
  afDepth :: int
  afIncludePrivate :: bool
  afIncludeNodeModules :: bool
  afOutputFormat :: OutputFormat

record Summary =
  totalSymbols :: nat
  complexity :: nat
  dependencies :: "string list"

text \<open>
  The result of \<open>analyzeFile\<close>. The field \<open>lastModified\<close> of the metadata is a clock
  reading and is left out; \<open>analysisTimeMs\<close> is the constant 0 in the source.
\<close>

record AnalyzeFileResult =
  afSummary :: Summary
  afSymbols :: "SymbolInfo list option"
  afDiagnostics :: "Diagnostic list option"
  afFileSize :: nat
  afAnalysisTimeMs :: nat

text \<open>
  \<open>checkMemoryUsage\<close> only clears the in-memory caches, which \<open>analyzeFile\<close> does not
  read. The analysis is synchronous, so the promise raced against the timer by
  \<open>withTimeout\<close> is already resolved and the timeout never wins.
\<close>

definition analyzeFile :: "Env \<Rightarrow> AnalyzeFileParams \<Rightarrow> string list \<times> (error + AnalyzeFileResult)" where
  "analyzeFile env params =
     (case validatePath (cwd env) (minimatch env) (afFilePath params) of
        Inl e \<Rightarrow> ([], Inl e)
      | Inr _ \<Rightarrow>
          (case addSourceFileAtPath env (afFilePath params) of
             Inl e \<Rightarrow> ([afFilePath params], Inl e)
           | Inr sourceFile \<Rightarrow>
               (let result = analyzeSourceFile sourceFile (afAnalysisType params)
                               (afDepth params) (afIncludePrivate params);
                    fileSize = length (getFullText sourceFile);
                    summary = \<lparr> totalSymbols = length (anSymbols result),
                                complexity = anComplexity result,
                                dependencies = map iiModuleSpecifier (anImports result) \<rparr>
                in
                if afOutputFormat params = OfSummary then
                  ([afFilePath params],
                   Inr \<lparr> afSummary = summary, afSymbols = None, afDiagnostics = None,
                         afFileSize = fileSize, afAnalysisTimeMs = 0 \<rparr>)
                else
                  ([afFilePath params],
                   Inr \<lparr> afSummary = summary,
                         afSymbols = Some (if afOutputFormat params = OfFull then anSymbols result
                                           else slice0 (anSymbols result) 10),
                         afDiagnostics = Some (anDiagnostics result),
                         afFileSize = fileSize, afAnalysisTimeMs = 0 \<rparr>))))"

subsection \<open>get_symbol_info\<close>

record GetSymbolInfoParams =
  gsFilePath :: string
  gsPosition :: Position
  gsIncludeRelationships :: bool
  gsIncludeUsages :: bool
  gsDepth :: int

fun symbolKindOfTypeKind :: "TypeKind \<Rightarrow> SymbolKind" where
  "symbolKindOfTypeKind TkClass = SkClass"
| "symbolKindOfTypeKind TkInterface = SkInterface"
| "symbolKindOfTypeKind TkEnum = SkEnum"
| "symbolKindOfTypeKind TkType = SkType"

definition getSymbolInfo :: "Env \<Rightarrow> GetSymbolInfoParams \<Rightarrow> string list \<times> (error + SymbolInfo)" where
  "getSymbolInfo env params =
     (case validatePath (cwd env) (minimatch env) (gsFilePath params) of
        Inl e \<Rightarrow> ([], Inl e)
      | Inr _ \<Rightarrow>
          (case addSourceFileAtPath env (gsFilePath params) of
             Inl e \<Rightarrow> ([gsFilePath params], Inl e)
           | Inr sourceFile \<Rightarrow>
               (case findSymbolAtPosition env sourceFile (gsPosition params) of
                  None \<Rightarrow>
                    ([gsFilePath params], Inl (AnalysisError FILE_NOT_FOUND ''No symbol found at position''))
                | Some (r, node) \<Rightarrow>
                    (case extractSymbolInfo node False of
                       None \<Rightarrow>
                         ([gsFilePath params],
                          Inl (AnalysisError PARSE_ERROR ''Could not extract symbol information''))
                     | Some symbolInfo \<Rightarrow>
                         (if gsIncludeRelationships params \<and> gsDepth params > 1 then
                            (let hierarchy = getTypeHierarchy (typeTable env) node Both (gsDepth params) in
                             if length hierarchy > 0 then
                               ([gsFilePath params],
                                Inr (symbolInfo \<lparr> siRelationships :=
                                  Some \<lparr> relExtends = Some (map (\<lambda>t.
                                              \<lparr> srName = tiName t, srLocation = tiLocation t,
                                                srKind = symbolKindOfTypeKind (tiKind t) \<rparr>)
                                              (filter (\<lambda>t. tiName t \<noteq> siName symbolInfo) hierarchy)),
                                         relImplements =
                                           (case siRelationships symbolInfo of
                                              None \<Rightarrow> None | Some rel \<Rightarrow> relImplements rel) \<rparr> \<rparr>))
                             else ([gsFilePath params], Inr symbolInfo))
                          else ([gsFilePath params], Inr symbolInfo))))))"

subsection \<open>find_references\<close>

datatype ReferenceScope = ScopeFile | ScopeProject

record FindReferencesParams =
  frFilePath :: string
  frPosition :: Position
  frIncludeDeclaration :: bool
  frScope :: ReferenceScope
  frMaxResults :: int

record ReferenceEntry =
  reLocation :: Location
  reKind :: ReferenceKind
  reContext :: string

record FindReferencesResult =
  frReferences :: "ReferenceEntry list"
  frSymbol :: "SymbolInfo option"
  frTotalReferences :: nat

text \<open>The nodes the language service reports for the identifier of \<open>node\<close>, all groups in order.\<close>

definition referenceNodes :: "Env \<Rightarrow> string list \<Rightarrow> Node \<Rightarrow> NodeRef list" where
  "referenceNodes env loaded node =
     (case (if getKind node = Identifier then Some node
            else find (\<lambda>d. getKind d = Identifier) (descendants node)) of
        None \<Rightarrow> []
      | Some identifier \<Rightarrow> concat (languageService env loaded identifier))"

definition referenceEntry :: "NodeRef \<Rightarrow> ReferenceEntry option" where
  "referenceEntry refNode =
     (case getNode refNode of
        None \<Rightarrow> None
      | Some n \<Rightarrow> Some \<lparr> reLocation = nodeToLocation n,
                         reKind = getReferenceKind refNode,
                         reContext = getContext n 3 \<rparr>)"

definition findReferences :: "Env \<Rightarrow> FindReferencesParams \<Rightarrow> string list \<times> (error + FindReferencesResult)" where
  "findReferences env params =
     (case validatePath (cwd env) (minimatch env) (frFilePath params) of
        Inl e \<Rightarrow> ([], Inl e)
      | Inr _ \<Rightarrow>
          (case addSourceFileAtPath env (frFilePath params) of
             Inl e \<Rightarrow> ([frFilePath params], Inl e)
           | Inr sourceFile \<Rightarrow>
               (case findSymbolAtPosition env sourceFile (frPosition params) of
                  None \<Rightarrow>
                    ([frFilePath params], Inl (AnalysisError FILE_NOT_FOUND ''No symbol found at position''))
                | Some (r, node) \<Rightarrow>
                    (if symbol (info node) = None then
                       ([frFilePath params], Inl (AnalysisError PARSE_ERROR ''No symbol information available''))
                     else
                       (let loaded =
                              (if frScope params = ScopeFile then [frFilePath params]
                               else frFilePath params # slice0 (findFiles env ''**/*.{ts,tsx}'') 50);
                            references = List.map_filter referenceEntry (referenceNodes env loaded node);
                            symbolInfo = extractSymbolInfo node False
                        in
                        (loaded,
                         Inr \<lparr> frReferences = slice0 references (frMaxResults params),
                               frSymbol = symbolInfo,
                               frTotalReferences = length references \<rparr>))))))"


subsection \<open>detect_code_smells\<close>

datatype CodeSmellCategory =
  CatComplexity | CatDuplication | CatCoupling | CatNaming | CatUnusedCode | CatAsyncIssues

datatype Severity = Low | Medium | High

record Smell =
  smType :: CodeSmellCategory
  smSeverity :: Severity
  smLocation :: Location
  smMessage :: string
  smSuggestion :: "string option"

record Threshold =
  thComplexity :: "int option"
  thFileSize :: "int option"
  thFunctionSize :: "int option"

text \<open>\<open>v || d\<close> on an optional number: an absent value and 0 both give the default.\<close>

definition orDefault :: "int option \<Rightarrow> int \<Rightarrow> int" where
  "orDefault v d = (case v of None \<Rightarrow> d | Some x \<Rightarrow> if x = 0 then d else x)"

definition complexityThresholdOf :: "Threshold option \<Rightarrow> int" where
  "complexityThresholdOf threshold =
     orDefault (case threshold of None \<Rightarrow> None | Some t \<Rightarrow> thComplexity t) 10"

definition functionSizeThresholdOf :: "Threshold option \<Rightarrow> int" where
  "functionSizeThresholdOf threshold =
     orDefault (case threshold of None \<Rightarrow> None | Some t \<Rightarrow> thFunctionSize t) 50"

definition fileSizeThresholdOf :: "Threshold option \<Rightarrow> int" where
  "fileSizeThresholdOf threshold =
     orDefault (case threshold of None \<Rightarrow> None | Some t \<Rightarrow> thFileSize t) 300"

text \<open>The three parts of \<open>detectComplexitySmells\<close>: the file, each function, each class.\<close>

definition fileSizeSmells :: "SourceFile \<Rightarrow> Threshold option \<Rightarrow> Smell list" where
  "fileSizeSmells sourceFile threshold =
     (let fileSizeThreshold = fileSizeThresholdOf threshold;
          lines = endLine (info (root sourceFile))
      in
      if lines > fileSizeThreshold then
        [\<lparr> smType = CatComplexity,
           smSeverity = (if lines > fileSizeThreshold * 2 then High else Medium),
           smLocation = \<lparr> locFile = getFilePath sourceFile,
                          position = \<lparr> line = 0, character = 0 \<rparr>,
                          endPosition = None \<rparr>,
           smMessage = ''File has '' @ string_of_int lines @ '' lines, exceeding threshold of ''
                         @ string_of_int fileSizeThreshold,
           smSuggestion = Some ''Consider splitting this file into smaller, more focused modules'' \<rparr>]
      else [])"

definition functionComplexitySmells :: "Threshold option \<Rightarrow> Node \<Rightarrow> Smell list" where
  "functionComplexitySmells threshold func =
     (let complexityThreshold = complexityThresholdOf threshold;
          c = getNodeComplexity func
      in
      if int c > complexityThreshold then
        [\<lparr> smType = CatComplexity,
           smSeverity = (if int c > complexityThreshold * 2 then High else Medium),
           smLocation = nodeToLocation func,
           smMessage = ''Function has cyclomatic complexity of '' @ string_of_nat c,
           smSuggestion = Some ''Consider breaking this function into smaller, more focused functions'' \<rparr>]
      else [])"

definition functionSizeSmells :: "Threshold option \<Rightarrow> Node \<Rightarrow> Smell list" where
  "functionSizeSmells threshold func =
     (let functionSizeThreshold = functionSizeThresholdOf threshold;
          lines = endLine (info func) - startLine (info func)
      in
      if lines > functionSizeThreshold then
        [\<lparr> smType = CatComplexity,
           smSeverity = (if lines > functionSizeThreshold * 2 then High else Medium),
           smLocation = nodeToLocation func,
           smMessage = ''Function has '' @ string_of_int lines @ '' lines, exceeding threshold of ''
                         @ string_of_int functionSizeThreshold,
           smSuggestion = Some ''Consider breaking this function into smaller functions'' \<rparr>]
      else [])"

definition classComplexitySmells :: "Threshold option \<Rightarrow> Node \<Rightarrow> Smell list" where
  "classComplexitySmells threshold cls =
     (let complexityThreshold = complexityThresholdOf threshold;
          totalComplexity = foldl (\<lambda>total method. total + getNodeComplexity method) 0 (getMethods cls)
      in
      if int totalComplexity > complexityThreshold * 3 then
        [\<lparr> smType = CatComplexity,
           smSeverity = High,
           smLocation = nodeToLocation cls,
           smMessage = ''Class has total complexity of '' @ string_of_nat totalComplexity,
           smSuggestion = Some ''Consider splitting this class using Single Responsibility Principle'' \<rparr>]
      else [])"

text \<open>\<open>detectComplexitySmells\<close> pushes onto the list \<open>smells\<close>; the new list is returned.\<close>

definition detectComplexitySmells :: "SourceFile \<Rightarrow> Smell list \<Rightarrow> Threshold option \<Rightarrow> Smell list" where
  "detectComplexitySmells sourceFile smells threshold =
     smells @
     fileSizeSmells sourceFile threshold @
     concat (map (\<lambda>func. functionComplexitySmells threshold func @ functionSizeSmells threshold func)
                 (getFunctions sourceFile)) @
     concat (map (classComplexitySmells threshold) (getClasses sourceFile))"

text \<open>
  The detectors for naming, unused code, async issues and coupling only push findings onto
  the list of smells, each with its own category as \<open>type\<close>. They are parameters of the
  model: for a source file, the findings the detector pushes, in order, and the error it
  throws after them, if it throws.
\<close>

record Finding =
  fdSeverity :: Severity
  fdLocation :: Location
  fdMessage :: string
  fdSuggestion :: "string option"

record Detectors =
  namingFindings :: "SourceFile \<Rightarrow> Finding list \<times> error option"
  unusedCodeFindings :: "SourceFile \<Rightarrow> Finding list \<times> error option"
  asyncIssueFindings :: "SourceFile \<Rightarrow> Finding list \<times> error option"
  couplingFindings :: "SourceFile \<Rightarrow> Finding list \<times> error option"

definition pushFindings :: "CodeSmellCategory \<Rightarrow> Finding list \<Rightarrow> Smell list \<Rightarrow> Smell list" where
  "pushFindings cat findings smells =
     smells @ map (\<lambda>fd. \<lparr> smType = cat, smSeverity = fdSeverity fd, smLocation = fdLocation fd,
                           smMessage = fdMessage fd, smSuggestion = fdSuggestion fd \<rparr>) findings"

definition detectNamingSmells :: "Detectors \<Rightarrow> SourceFile \<Rightarrow> Smell list \<Rightarrow> Smell list \<times> error option" where
  "detectNamingSmells detectors sourceFile smells =
     (pushFindings CatNaming (fst (namingFindings detectors sourceFile)) smells,
      snd (namingFindings detectors sourceFile))"

definition detectUnusedCode :: "Detectors \<Rightarrow> SourceFile \<Rightarrow> Smell list \<Rightarrow> Smell list \<times> error option" where
  "detectUnusedCode detectors sourceFile smells =
     (pushFindings CatUnusedCode (fst (unusedCodeFindings detectors sourceFile)) smells,
      snd (unusedCodeFindings detectors sourceFile))"

definition detectAsyncIssues :: "Detectors \<Rightarrow> SourceFile \<Rightarrow> Smell list \<Rightarrow> Smell list \<times> error option" where
  "detectAsyncIssues detectors sourceFile smells =
     (pushFindings CatAsyncIssues (fst (asyncIssueFindings detectors sourceFile)) smells,
      snd (asyncIssueFindings detectors sourceFile))"

definition detectCouplingIssues :: "Detectors \<Rightarrow> SourceFile \<Rightarrow> Smell list \<Rightarrow> Smell list \<times> error option" where
  "detectCouplingIssues detectors sourceFile smells =
     (pushFindings CatCoupling (fst (couplingFindings detectors sourceFile)) smells,
      snd (couplingFindings detectors sourceFile))"

text \<open>
  Sequencing inside the \<open>try\<close> block: the next statement runs on the list of smells as it
  is, unless an error has been thrown.
\<close>

definition andThen ::
    "Smell list \<times> error option \<Rightarrow> (Smell list \<Rightarrow> Smell list \<times> error option) \<Rightarrow>
     Smell list \<times> error option" where
  "andThen r step = (case snd r of None \<Rightarrow> step (fst r) | Some e \<Rightarrow> r)"

record DetectCodeSmellsParams =
  dsFilePath :: "string option"
  dsCategories :: "CodeSmellCategory list option"
  dsThreshold :: "Threshold option"

record SmellSummary =
  ssTotal :: nat
  ssByCategory :: "(CodeSmellCategory \<times> nat) list"
  ssHigh :: nat
  ssMedium :: nat
  ssLow :: nat

text \<open>The result of \<open>detectCodeSmells\<close>; \<open>analysisTimeMs\<close>, a clock reading, is left out.\<close>

record DetectCodeSmellsResult =
  dsSmells :: "Smell list"
  dsSummary :: SmellSummary

fun severityOrder :: "Severity \<Rightarrow> nat" where
  "severityOrder High = 0"
| "severityOrder Medium = 1"
| "severityOrder Low = 2"

text \<open>
  The body of the task run for one file. An error thrown inside it is caught and logged by the
  task: the smells pushed before the error stay in the list, and nothing more is done for
  the file.
\<close>

definition smellsOfFile ::
    "Env \<Rightarrow> Detectors \<Rightarrow> CodeSmellCategory list \<Rightarrow> Threshold option \<Rightarrow>
     string list \<times> Smell list \<Rightarrow> string \<Rightarrow> string list \<times> Smell list" where
  "smellsOfFile env detectors categories threshold st f =
     (case validatePath (cwd env) (minimatch env) f of
        Inl e \<Rightarrow> st
      | Inr _ \<Rightarrow>
          (case addSourceFileAtPath env f of
             Inl e \<Rightarrow> (fst st @ [f], snd st)
           | Inr sourceFile \<Rightarrow>
               (let r = (if CatComplexity \<in> set categories
                         then detectComplexitySmells sourceFile (snd st) threshold else snd st,
                         None);
                    r = andThen r (\<lambda>smells. if CatNaming \<in> set categories
                              then detectNamingSmells detectors sourceFile smells else (smells, None));
                    r = andThen r (\<lambda>smells. if CatUnusedCode \<in> set categories
                              then detectUnusedCode detectors sourceFile smells else (smells, None));
                    r = andThen r (\<lambda>smells. if CatAsyncIssues \<in> set categories
                              then detectAsyncIssues detectors sourceFile smells else (smells, None));
                    r = andThen r (\<lambda>smells. if CatCoupling \<in> set categories
                              then detectCouplingIssues detectors sourceFile smells else (smells, None))
                in (fst st @ [f], fst r))))"

definition allCategories :: "CodeSmellCategory list" where
  "allCategories = [CatComplexity, CatDuplication, CatCoupling, CatNaming, CatUnusedCode, CatAsyncIssues]"

text \<open>
  The tasks of \<open>detectCodeSmells\<close> contain no \<open>await\<close>: under the limiter they run one
  after the other, in the order of \<open>files\<close>. The sort of the smells is stable.
\<close>

definition smellFiles :: "Env \<Rightarrow> DetectCodeSmellsParams \<Rightarrow> string list" where
  "smellFiles env params =
     (case dsFilePath params of
        None \<Rightarrow> findFiles env ''**/*.{ts,tsx}''
      | Some f \<Rightarrow> if f \<noteq> [] then [f] else findFiles env ''**/*.{ts,tsx}'')"

definition smellCategories :: "DetectCodeSmellsParams \<Rightarrow> CodeSmellCategory list" where
  "smellCategories params = (case dsCategories params of None \<Rightarrow> allCategories | Some cs \<Rightarrow> cs)"

definition detectCodeSmells ::
    "Env \<Rightarrow> Detectors \<Rightarrow> DetectCodeSmellsParams \<Rightarrow> string list \<times> (error + DetectCodeSmellsResult)" where
  "detectCodeSmells env detectors params =
     (let files = smellFiles env params;
          categories = smellCategories params;
          st = foldl (smellsOfFile env detectors categories (dsThreshold params)) ([], []) files;
          smells = sort_key (\<lambda>s. severityOrder (smSeverity s)) (snd st)
      in
      (fst st,
       Inr \<lparr> dsSmells = smells,
             dsSummary =
               \<lparr> ssTotal = length smells,
                 ssByCategory =
                   map (\<lambda>cat. (cat, length (filter (\<lambda>s. smType s = cat) smells)))
                       (rev (remdups (rev categories))),
                 ssHigh = length (filter (\<lambda>s. smSeverity s = High) smells),
                 ssMedium = length (filter (\<lambda>s. smSeverity s = Medium) smells),
                 ssLow = length (filter (\<lambda>s. smSeverity s = Low) smells) \<rparr> \<rparr>))"

subsection \<open>extract_context\<close>

datatype ContextType = CtFunction | CtClass | CtModule | CtRelated

record ExtractContextParams =
  ecFilePath :: string
  ecPosition :: "Position option"
  ecContextType :: ContextType
  ecMaxTokens :: int
  ecIncludeImports :: bool
  ecIncludeTypes :: bool
  ecFollowReferences :: bool

text \<open>
  The four functions that assemble the text of a context are parameters of the model.
\<close>

record ContextAssemblers =
  extractFunctionContext :: "NodeRef \<Rightarrow> bool \<Rightarrow> string"
  extractClassContext :: "NodeRef \<Rightarrow> bool \<Rightarrow> string"
  extractModuleContext :: "SourceFile \<Rightarrow> bool \<Rightarrow> string"
  extractRelatedContext :: "NodeRef \<Rightarrow> bool \<Rightarrow> string"

record ContextResult =
  ecMainContext :: string
  ecImports :: "string list option"
  ecTokenCount :: int

text \<open>
  The ratio of the truncation is computed in floating point in the source; the model divides
  exactly.
\<close>

definition extractContext ::
    "Env \<Rightarrow> ContextAssemblers \<Rightarrow> ExtractContextParams \<Rightarrow> string list \<times> (error + ContextResult)" where
  "extractContext env assemblers params =
     (case validatePath (cwd env) (minimatch env) (ecFilePath params) of
        Inl e \<Rightarrow> ([], Inl e)
      | Inr _ \<Rightarrow>
          (case addSourceFileAtPath env (ecFilePath params) of
             Inl e \<Rightarrow> ([ecFilePath params], Inl e)
           | Inr sourceFile \<Rightarrow>
               (let targetNode = (case ecPosition params of
                                    None \<Rightarrow> Some None
                                  | Some pos \<Rightarrow>
                                      (case findSymbolAtPosition env sourceFile pos of
                                         None \<Rightarrow> None
                                       | Some (r, n) \<Rightarrow> Some (Some r)))
                in
                case targetNode of
                  None \<Rightarrow>
                    ([ecFilePath params], Inl (AnalysisError FILE_NOT_FOUND ''No symbol found at position''))
                | Some target \<Rightarrow>
                    (let mainContext =
                           (case (ecContextType params, target) of
                              (CtFunction, Some r) \<Rightarrow> extractFunctionContext assemblers r (ecIncludeTypes params)
                            | (CtClass, Some r) \<Rightarrow> extractClassContext assemblers r (ecIncludeTypes params)
                            | (CtModule, _) \<Rightarrow> extractModuleContext assemblers sourceFile (ecIncludeTypes params)
                            | (CtRelated, Some r) \<Rightarrow> extractRelatedContext assemblers r (ecFollowReferences params)
                            | _ \<Rightarrow> []);
                         imports = (if ecIncludeImports params
                                    then Some (map (\<lambda>imp. nodeText (info (importNode imp)))
                                                   (importDeclarations sourceFile))
                                    else None);
                         tokenCount = int (length mainContext) div 4
                     in
                     if tokenCount > ecMaxTokens params then
                       (let newLength = (int (length mainContext) * ecMaxTokens params) div tokenCount in
                        ([ecFilePath params],
                         Inr \<lparr> ecMainContext = take (nat newLength) mainContext @ [CHR 0x0A] @ ''... (truncated)'',
                               ecImports = imports,
                               ecTokenCount = ecMaxTokens params \<rparr>))
                     else
                       ([ecFilePath params],
                        Inr \<lparr> ecMainContext = mainContext, ecImports = imports,
                              ecTokenCount = tokenCount \<rparr>)))))"


section \<open>cache.ts\<close>

subsection \<open>JavaScript values and \<open>JSON.stringify\<close> with a replacer array\<close>

text \<open>
  The values passed to \<open>generateCacheKey\<close> and stored in the cache. An object is the list of
  its own enumerable properties in enumeration order; numbers are integers.
\<close>

datatype json =
    JUndefined | JNull | JBool bool | JNumber int | JString string
  | JArray "json list" | JObject "(string \<times> json) list"

definition hexDigit :: "nat \<Rightarrow> char" where
  "hexDigit n = ''0123456789abcdef'' ! n"

text \<open>\<open>QuoteJSONString\<close> of the language standard, on one character.\<close>

definition quoteChar :: "char \<Rightarrow> string" where
  "quoteChar c =
     (if c = CHR 0x22 then [CHR 0x5C, CHR 0x22]
      else if c = CHR 0x5C then [CHR 0x5C, CHR 0x5C]
      else if c = CHR 0x08 then [CHR 0x5C, CHR ''b'']
      else if c = CHR 0x09 then [CHR 0x5C, CHR ''t'']
      else if c = CHR 0x0A then [CHR 0x5C, CHR ''n'']
      else if c = CHR 0x0C then [CHR 0x5C, CHR ''f'']
      else if c = CHR 0x0D then [CHR 0x5C, CHR ''r'']
      else if (of_char c :: nat) < 32 then
        [CHR 0x5C, CHR ''u'', CHR ''0'', CHR ''0'',
         hexDigit (of_char c div 16), hexDigit (of_char c mod 16)]
      else [c])"

definition quoteJSONString :: "string \<Rightarrow> string" where
  "quoteJSONString s = [CHR 0x22] @ concat (map quoteChar s) @ [CHR 0x22]"

text \<open>
  \<open>SerializeJSONProperty\<close> with the property list \<open>K\<close> built from the replacer array:
  \<open>None\<close> is the result \<open>undefined\<close>. An object lists, in the order of \<open>K\<close>, the
  properties named in \<open>K\<close> whose value serializes; an array renders \<open>undefined\<close> as
  \<open>null\<close>.
\<close>

function serializeJSONProperty :: "string list \<Rightarrow> json \<Rightarrow> string option" where
  "serializeJSONProperty K JUndefined = None"
| "serializeJSONProperty K JNull = Some ''null''"
| "serializeJSONProperty K (JBool b) = Some (if b then ''true'' else ''false'')"
| "serializeJSONProperty K (JNumber n) = Some (string_of_int n)"
| "serializeJSONProperty K (JString s) = Some (quoteJSONString s)"
| "serializeJSONProperty K (JArray xs) =
     Some (''['' @ join '','' (map (\<lambda>x. case serializeJSONProperty K x of
                                         None \<Rightarrow> ''null'' | Some t \<Rightarrow> t) xs) @ '']'')"
| "serializeJSONProperty K (JObject kvs) =
     Some (''{'' @ join '',''
             (List.map_filter
                (\<lambda>P. case map_of kvs P of
                        None \<Rightarrow> None
                      | Some v \<Rightarrow>
                          (case serializeJSONProperty K v of
                             None \<Rightarrow> None
                           | Some t \<Rightarrow> Some (quoteJSONString P @ '':'' @ t)))
                K) @ ''}'')"
  by pat_completeness auto
termination
proof (relation "measure (\<lambda>(K, v). size v)")
  show "wf (measure (\<lambda>(K, v). size v))" by simp
next
  fix K :: "string list" and xs :: "json list" and x :: json
  assume "x \<in> set xs"
  then have "size x < Suc (size_list size xs)"
    by (induction xs) auto
  then show "((K, x), (K, JArray xs)) \<in> measure (\<lambda>(K, v). size v)" by simp
next
  fix K :: "string list" and kvs :: "(string \<times> json) list" and P :: string and v :: json
  assume "map_of kvs P = Some v"
  then have "(P, v) \<in> set kvs" by (rule map_of_SomeD)
  then have "size v < Suc (size_list (size_prod (\<lambda>_. 0) size) kvs)"
    by (induction kvs) auto
  then show "((K, v), (K, JObject kvs)) \<in> measure (\<lambda>(K, v). size v)" by simp
qed

text \<open>The property list of a replacer array of strings: its elements, without repetitions.\<close>

definition propertyList :: "string list \<Rightarrow> string list" where
  "propertyList replacer = rev (remdups (rev replacer))"

definition JSON_stringify :: "json \<Rightarrow> string list \<Rightarrow> string option" where
  "JSON_stringify v replacer = serializeJSONProperty (propertyList replacer) v"

text \<open>\<open>Object.keys\<close>: the property names of an object, the indices of an array.\<close>

fun objectKeys :: "json \<Rightarrow> string list" where
  "objectKeys (JObject kvs) = map fst kvs"
| "objectKeys (JArray xs) = map string_of_nat [0..<length xs]"
| "objectKeys _ = []"

subsection \<open>Cache keys\<close>

text \<open>The callback of the \<open>map\<close> in \<open>generateCacheKey\<close>.\<close>

fun normalizePart :: "json \<Rightarrow> string" where
  "normalizePart JUndefined = ''null''"
| "normalizePart JNull = ''null''"
| "normalizePart (JBool b) = (if b then ''true'' else ''false'')"
| "normalizePart (JNumber n) = string_of_int n"
| "normalizePart (JString s) = s"
| "normalizePart part =
     (case JSON_stringify part (sort (objectKeys part)) of None \<Rightarrow> [] | Some t \<Rightarrow> t)"

text \<open>\<open>generateCacheKey\<close>, with the digest function (SHA-256 in hexadecimal) as a parameter.\<close>

definition generateCacheKey :: "(string \<Rightarrow> string) \<Rightarrow> json list \<Rightarrow> string" where
  "generateCacheKey sha256 parts = sha256 (join '':'' (map normalizePart parts))"

subsection \<open>The disk cache and the analysis cache\<close>

record AnalysisResult =
  arData :: json
  arTimestamp :: int
  arContentHash :: "string option"

record CacheStats =
  hits :: nat
  misses :: nat
  evictions :: nat
  memoryUsage :: nat

text \<open>
  The persistent storage is a library (node-persist), initialised with \<open>JSON.stringify\<close>
  and \<open>JSON.parse\<close>: a value is written as its JSON text and read back by parsing the
  text. \<open>jsonRoundTrip v\<close> is the value \<open>JSON.parse(JSON.stringify(v))\<close>: inside an array
  \<open>undefined\<close> becomes \<open>null\<close>, and a property whose value is \<open>undefined\<close> is dropped.
  The storage is modelled as a map from keys to the values as they are read back.
  \<open>failing\<close> says that the library throws on every call.
\<close>

function jsonRoundTrip :: "json \<Rightarrow> json" where
  "jsonRoundTrip (JArray xs) =
     JArray (map (\<lambda>x. if x = JUndefined then JNull else jsonRoundTrip x) xs)"
| "jsonRoundTrip (JObject kvs) =
     JObject (map (\<lambda>kv. (fst kv, jsonRoundTrip (snd kv)))
                  (filter (\<lambda>kv. snd kv \<noteq> JUndefined) kvs))"
| "jsonRoundTrip JUndefined = JUndefined"
| "jsonRoundTrip JNull = JNull"
| "jsonRoundTrip (JBool b) = JBool b"
| "jsonRoundTrip (JNumber n) = JNumber n"
| "jsonRoundTrip (JString s) = JString s"
  by pat_completeness auto
termination
proof (relation "measure size")
  show "wf (measure size)" by simp
next
  fix xs :: "json list" and x :: json
  assume "x \<in> set xs"
  then have "size x < Suc (size_list size xs)"
    by (induction xs) auto
  then show "(x, JArray xs) \<in> measure size" by simp
next
  fix kvs :: "(string \<times> json) list" and kv :: "string \<times> json"
  assume "kv \<in> set (filter (\<lambda>kv. snd kv \<noteq> JUndefined) kvs)"
  then have "(fst kv, snd kv) \<in> set kvs" by simp
  then have "size (snd kv) < Suc (size_list (size_prod (\<lambda>_. 0) size) kvs)"
    by (induction kvs) auto
  then show "(snd kv, JObject kvs) \<in> measure size" by simp
qed

text \<open>The stored object \<open>{data, timestamp}\<close> as it is read back.\<close>

definition storedForm :: "AnalysisResult \<Rightarrow> AnalysisResult" where
  "storedForm v = v \<lparr> arData := jsonRoundTrip (arData v) \<rparr>"

record DiskCache =
  initialized :: bool
  stats :: CacheStats
  items :: "string \<rightharpoonup> AnalysisResult"
  failing :: bool

definition DiskCache_init :: "DiskCache \<Rightarrow> error + DiskCache" where
  "DiskCache_init c =
     (if initialized c then Inr c
      else if failing c then Inl (LibraryError ''storage'')
      else Inr (c \<lparr> initialized := True \<rparr>))"

definition DiskCache_get :: "DiskCache \<Rightarrow> string \<Rightarrow> (error + AnalysisResult option) \<times> DiskCache" where
  "DiskCache_get c key =
     (case DiskCache_init c of
        Inl e \<Rightarrow> (Inl e, c)
      | Inr c \<Rightarrow>
          if failing c then (Inr None, c \<lparr> stats := (stats c) \<lparr> misses := misses (stats c) + 1 \<rparr> \<rparr>)
          else
            (case items c key of
               Some v \<Rightarrow> (Inr (Some v), c \<lparr> stats := (stats c) \<lparr> hits := hits (stats c) + 1 \<rparr> \<rparr>)
             | None \<Rightarrow> (Inr None, c \<lparr> stats := (stats c) \<lparr> misses := misses (stats c) + 1 \<rparr> \<rparr>)))"

definition DiskCache_set :: "DiskCache \<Rightarrow> string \<Rightarrow> AnalysisResult \<Rightarrow> (error + unit) \<times> DiskCache" where
  "DiskCache_set c key v =
     (case DiskCache_init c of
        Inl e \<Rightarrow> (Inl e, c)
      | Inr c \<Rightarrow>
          if failing c then (Inr (), c)
          else (Inr (), c \<lparr> items := (items c)(key \<mapsto> storedForm v) \<rparr>))"

definition DiskCache_delete :: "DiskCache \<Rightarrow> string \<Rightarrow> (error + unit) \<times> DiskCache" where
  "DiskCache_delete c key =
     (case DiskCache_init c of
        Inl e \<Rightarrow> (Inl e, c)
      | Inr c \<Rightarrow>
          if failing c then (Inl (LibraryError ''storage''), c)
          else (Inr (), c \<lparr> items := (items c)(key := None),
                              stats := (stats c) \<lparr> evictions := evictions (stats c) + 1 \<rparr> \<rparr>))"

text \<open>
  The cache manager, as far as the analysis cache goes: the time-to-live of its options and
  the disk cache. The constructor takes the option \<open>ttl\<close> with \<open>||\<close>, so 0 gives the default.
\<close>

record CacheManager =
  ttl :: int
  analysisCache :: DiskCache

definition newCacheManager :: "int option \<Rightarrow> CacheManager" where
  "newCacheManager ttlOption =
     \<lparr> ttl = orDefault ttlOption 3600000,
       analysisCache = \<lparr> initialized = False,
                         stats = \<lparr> hits = 0, misses = 0, evictions = 0, memoryUsage = 0 \<rparr>,
                         items = Map.empty,
                         failing = False \<rparr> \<rparr>"

text \<open>
  \<open>getCachedAnalysis\<close> and \<open>setCachedAnalysis\<close>; \<open>now\<close> is the reading of \<open>Date.now()\<close>.
  The result \<open>JUndefined\<close> is the value \<open>undefined\<close> of the source.
\<close>

definition getCachedAnalysis :: "CacheManager \<Rightarrow> int \<Rightarrow> string \<Rightarrow> (error + json) \<times> CacheManager" where
  "getCachedAnalysis cm now key =
     (case DiskCache_get (analysisCache cm) key of
        (Inl e, c) \<Rightarrow> (Inl e, cm \<lparr> analysisCache := c \<rparr>)
      | (Inr None, c) \<Rightarrow> (Inr JUndefined, cm \<lparr> analysisCache := c \<rparr>)
      | (Inr (Some cached), c) \<Rightarrow>
          if now - arTimestamp cached > ttl cm then
            (case DiskCache_delete c key of
               (Inl e, c') \<Rightarrow> (Inl e, cm \<lparr> analysisCache := c' \<rparr>)
             | (Inr _, c') \<Rightarrow> (Inr JUndefined, cm \<lparr> analysisCache := c' \<rparr>))
          else (Inr (arData cached), cm \<lparr> analysisCache := c \<rparr>))"

definition setCachedAnalysis :: "CacheManager \<Rightarrow> int \<Rightarrow> string \<Rightarrow> json \<Rightarrow> (error + unit) \<times> CacheManager" where
  "setCachedAnalysis cm now key data =
     (case DiskCache_set (analysisCache cm) key
             \<lparr> arData = data, arTimestamp = now, arContentHash = None \<rparr> of
        (r, c) \<Rightarrow> (r, cm \<lparr> analysisCache := c \<rparr>))"



section \<open>Notions used to state the properties\<close>

text \<open>The number of descendants that \<open>getNodeComplexity\<close> counts.\<close>

definition branchCount :: "Node \<Rightarrow> nat" where
  "branchCount n = length (filter (\<lambda>d. countsTowardsComplexity (getKind d)) (descendants n))"

definition weight :: "Node \<Rightarrow> nat" where
  "weight c = (if countsTowardsComplexity (getKind c) then 1 else 0) + branchCount c"

text \<open>
  The branching constructs in the words of the specification: conditional statements and
  expressions, all loop forms, catch clauses, case clauses, and binary expressions whose
  operator is a logical one.
\<close>

definition isLogicalBinaryExpression :: "Node \<Rightarrow> bool" where
  "isLogicalBinaryExpression n =
     (getKind n = BinaryExpression \<and>
      (case getOperatorToken n of
         None \<Rightarrow> False
       | Some operator \<Rightarrow> getKind operator = AmpersandAmpersandToken \<or> getKind operator = BarBarToken \<or>
                          getKind operator = QuestionQuestionToken))"

definition spec_isBranchingConstruct :: "Node \<Rightarrow> bool" where
  "spec_isBranchingConstruct n =
     (getKind n = IfStatement \<or> getKind n = ConditionalExpression \<or>
      getKind n = ForStatement \<or> getKind n = ForInStatement \<or> getKind n = ForOfStatement \<or>
      getKind n = WhileStatement \<or> getKind n = DoStatement \<or>
      getKind n = CatchClause \<or> getKind n = CaseClause \<or> isLogicalBinaryExpression n)"

definition spec_complexity :: "Node \<Rightarrow> nat" where
  "spec_complexity n = 1 + length (filter spec_isBranchingConstruct (descendants n))"

text \<open>
  Adding a node to a tree: \<open>insertAt p new n\<close> puts \<open>new\<close> into \<open>n\<close> at the place given by
  the path \<open>p\<close>, whose last index is the position among the children of the node the rest of
  the path leads to. \<open>validPos p n\<close> says that \<open>p\<close> is such a place of \<open>n\<close>.
\<close>

fun insertAt :: "nat list \<Rightarrow> Node \<Rightarrow> Node \<Rightarrow> Node" where
  "insertAt [] new n = n"
| "insertAt [k] new (Node i cs) = Node i (take k cs @ new # drop k cs)"
| "insertAt (k # p) new (Node i cs) =
     (if k < length cs then Node i (cs[k := insertAt p new (cs ! k)]) else Node i cs)"

fun validPos :: "nat list \<Rightarrow> Node \<Rightarrow> bool" where
  "validPos [] n = False"
| "validPos [k] (Node i cs) = (k \<le> length cs)"
| "validPos (k # p) (Node i cs) = (k < length cs \<and> validPos p (cs ! k))"

text \<open>The kind of the parent of a referenced node, and whether the parent is an assignment.\<close>

definition parentKind :: "NodeRef \<Rightarrow> SyntaxKind option" where
  "parentKind r = map_option getKind (getParent r)"

definition parentIsAssignment :: "NodeRef \<Rightarrow> bool" where
  "parentIsAssignment r =
     (case getParent r of
        None \<Rightarrow> False
      | Some parent \<Rightarrow> getKind parent = BinaryExpression \<and>
                       map_option getKind (getOperatorToken parent) = Some EqualsToken)"

text \<open>The node is the first child of its parent: for a binary expression, its left operand.\<close>

definition isLeftOperand :: "NodeRef \<Rightarrow> bool" where
  "isLeftOperand r = (refPath r \<noteq> [] \<and> last (refPath r) = 0)"

text \<open>
  The finding \<open>detectComplexitySmells\<close> pushes for the cyclomatic complexity of the
  function \<open>func\<close>, with the severity \<open>sev\<close>.
\<close>

definition cyclomaticFinding :: "Severity \<Rightarrow> Node \<Rightarrow> Smell" where
  "cyclomaticFinding sev func =
     \<lparr> smType = CatComplexity, smSeverity = sev, smLocation = nodeToLocation func,
       smMessage = ''Function has cyclomatic complexity of '' @ string_of_nat (getNodeComplexity func),
       smSuggestion = Some ''Consider breaking this function into smaller, more focused functions'' \<rparr>"

text \<open>
  The file \<open>f\<close> is one of the files of the call, passes \<open>validatePath\<close> and loads as \<open>sf\<close>.
\<close>

definition analysed :: "Env \<Rightarrow> DetectCodeSmellsParams \<Rightarrow> string \<Rightarrow> SourceFile \<Rightarrow> bool" where
  "analysed env params f sf =
     (f \<in> set (smellFiles env params) \<and> validatePath (cwd env) (minimatch env) f = Inr () \<and>
      fileSystem env f = Some sf)"

text \<open>
  A value holds no \<open>undefined\<close> inside an array or as the value of a property, at any depth.
\<close>

function jsonClean :: "json \<Rightarrow> bool" where
  "jsonClean (JArray xs) = (\<forall>x \<in> set xs. x \<noteq> JUndefined \<and> jsonClean x)"
| "jsonClean (JObject kvs) = (\<forall>kv \<in> set kvs. snd kv \<noteq> JUndefined \<and> jsonClean (snd kv))"
| "jsonClean JUndefined = True"
| "jsonClean JNull = True"
| "jsonClean (JBool b) = True"
| "jsonClean (JNumber n) = True"
| "jsonClean (JString s) = True"
  by pat_completeness auto
termination
proof (relation "measure size")
  show "wf (measure size)" by simp
next
  fix xs :: "json list" and x :: json
  assume "x \<in> set xs"
  then have "size x < Suc (size_list size xs)"
    by (induction xs) auto
  then show "(x, JArray xs) \<in> measure size" by simp
next
  fix kvs :: "(string \<times> json) list" and kv :: "string \<times> json"
  assume "kv \<in> set kvs"
  then have "(fst kv, snd kv) \<in> set kvs" by simp
  then have "size (snd kv) < Suc (size_list (size_prod (\<lambda>_. 0) size) kvs)"
    by (induction kvs) auto
  then show "(snd kv, JObject kvs) \<in> measure size" by simp
qed

text \<open>A path resolves outside the working directory \<open>wd\<close>.\<close>

definition resolvesOutside :: "string \<Rightarrow> string \<Rightarrow> bool" where
  "resolvesOutside wd path = (\<not> prefix (path_resolve wd wd) (path_resolve wd path))"

text \<open>Segments that normalisation keeps: not empty, not a dot.\<close>

definition kept :: "string \<Rightarrow> bool" where
  "kept s = (s \<noteq> [] \<and> s \<noteq> dot)"

text \<open>
  Two values are the same up to the order of the keys of their objects, at any depth. The
  keys of an object are distinct.
\<close>

inductive sameUpToKeyOrder :: "json \<Rightarrow> json \<Rightarrow> bool" where
  same: "sameUpToKeyOrder v v"
| arrays: "list_all2 sameUpToKeyOrder xs ys \<Longrightarrow> sameUpToKeyOrder (JArray xs) (JArray ys)"
| objects:
    "distinct (map fst kvs) \<Longrightarrow> distinct (map fst kvs') \<Longrightarrow>
     set (map fst kvs) = set (map fst kvs') \<Longrightarrow>
     (\<forall>k \<in> set (map fst kvs). \<exists>v v'. map_of kvs k = Some v \<and> map_of kvs' k = Some v' \<and>
                                       sameUpToKeyOrder v v') \<Longrightarrow>
     sameUpToKeyOrder (JObject kvs) (JObject kvs')"



section \<open>Example programs\<close>

definition mkInfo :: "SyntaxKind \<Rightarrow> NodeInfo" where
  "mkInfo k =
     \<lparr> kind = k, nodeText = [], startLine = 1, startColumn = 1, endLine = 1, endColumn = 1,
       symbol = None, typeText = [], typeRef = 0, modifiers = None, heritageClauses = [],
       sourceFileInfo = \<lparr> filePath = [], fullText = [], endLineNumber = 1 \<rparr> \<rparr>"

definition leaf :: "SyntaxKind \<Rightarrow> Node" where
  "leaf k = Node (mkInfo k) []"

definition named :: "string \<Rightarrow> NodeInfo \<Rightarrow> NodeInfo" where
  "named n i = i \<lparr> symbol := Some \<lparr> symName = n, jsDocTags = [] \<rparr> \<rparr>"

definition withModifiers :: "SyntaxKind list \<Rightarrow> NodeInfo \<Rightarrow> NodeInfo" where
  "withModifiers ms i = i \<lparr> modifiers := Some ms \<rparr>"

fun inFile :: "SourceFileInfo \<Rightarrow> Node \<Rightarrow> Node" where
  "inFile sfi (Node i cs) = Node (i \<lparr> sourceFileInfo := sfi \<rparr>) (map (inFile sfi) cs)"

definition sourceFileOf :: "string \<Rightarrow> string \<Rightarrow> Node list \<Rightarrow> SourceFile" where
  "sourceFileOf path txt statements =
     \<lparr> root = inFile \<lparr> filePath = path, fullText = txt, endLineNumber = 1 \<rparr>
                (Node (mkInfo SourceFileKind) (statements @ [leaf EndOfFileToken])),
       importDeclarations = [], exportDeclarations = [], exportedDeclarations = [],
       preEmitDiagnostics = [] \<rparr>"

text \<open>\<^verbatim>\<open>function f(a, b) { return a + b; }\<close>\<close>

definition sumFunction :: Node where
  "sumFunction =
     Node (named ''f'' (mkInfo FunctionDeclaration))
       [leaf Identifier,
        Node (mkInfo Parameter) [leaf Identifier],
        Node (mkInfo Parameter) [leaf Identifier],
        Node (mkInfo Block)
          [Node (mkInfo ReturnStatement)
             [Node (mkInfo BinaryExpression) [leaf Identifier, leaf PlusToken, leaf Identifier]]]]"

text \<open>\<^verbatim>\<open>function g(x) { return 0; }\<close> and the statement \<^verbatim>\<open>if (x) { return 1; }\<close>\<close>

definition plainFunction :: Node where
  "plainFunction =
     Node (named ''g'' (mkInfo FunctionDeclaration))
       [leaf Identifier,
        Node (mkInfo Parameter) [leaf Identifier],
        Node (mkInfo Block) [Node (mkInfo ReturnStatement) [leaf NumericLiteral]]]"

definition ifStatement :: Node where
  "ifStatement =
     Node (mkInfo IfStatement)
       [leaf Identifier, Node (mkInfo Block) [Node (mkInfo ReturnStatement) [leaf NumericLiteral]]]"

text \<open>\<^verbatim>\<open>function g(x) { if (x) { return 1; } return 0; }\<close>\<close>

definition branchFunction :: Node where
  "branchFunction = insertAt [2, 0] ifStatement plainFunction"

text \<open>\<^verbatim>\<open>class C { private v = 0; m(){ return this.v; } }\<close>\<close>

definition classC :: Node where
  "classC =
     Node (withModifiers [] (named ''C'' (mkInfo ClassDeclaration)))
       [leaf Identifier,
        Node (withModifiers [PrivateKeyword] (named ''v'' (mkInfo PropertyDeclaration)))
          [leaf PrivateKeyword, leaf Identifier, leaf NumericLiteral],
        Node (withModifiers [] (named ''m'' (mkInfo MethodDeclaration)))
          [leaf Identifier,
           Node (mkInfo Block)
             [Node (mkInfo ReturnStatement)
                [Node (mkInfo PropertyAccessExpression) [leaf ThisKeyword, leaf Identifier]]]]]"

text \<open>An identifier of one character that starts at the column \<open>col\<close> of the first line.\<close>

definition identifierAt :: "string \<Rightarrow> int \<Rightarrow> Node" where
  "identifierAt name col =
     Node ((named name (mkInfo Identifier)) \<lparr> startColumn := col, endColumn := col + 1 \<rparr>) []"

text \<open>\<^verbatim>\<open>x = y;\<close>, as the third statement of the file below.\<close>

definition assignment :: Node where
  "assignment =
     Node (mkInfo ExpressionStatement)
       [Node (mkInfo BinaryExpression)
          [identifierAt ''x'' 23, leaf EqualsToken, identifierAt ''y'' 27]]"

text \<open>\<^verbatim>\<open>const _hidden = 1\<close>: the declaration of a variable whose name starts with an underscore.\<close>

definition underscoreVariable :: Node where
  "underscoreVariable =
     Node (named ''_hidden'' (mkInfo VariableDeclaration)) [leaf Identifier, leaf NumericLiteral]"

text \<open>The declaration of the property \<^verbatim>\<open>v\<close> of the class above.\<close>

definition privateProperty :: Node where
  "privateProperty =
     Node (withModifiers [PrivateKeyword] (named ''v'' (mkInfo PropertyDeclaration)))
       [leaf PrivateKeyword, leaf Identifier, leaf NumericLiteral]"

definition branchFile :: SourceFile where
  "branchFile =
     sourceFileOf ''/work/project/src/g.ts'' ''function g(x) { if (x) { return 1; } return 0; }''
       [branchFunction]"

definition classFile :: SourceFile where
  "classFile =
     sourceFileOf ''/work/project/src/c.ts'' ''class C { private v = 0; m(){ return this.v; } }''
       [classC]"

text \<open>\<^verbatim>\<open>let x = 1;\<close> and \<^verbatim>\<open>let y = 2;\<close>: the name starts at the column \<open>col\<close>.\<close>

definition letStatement :: "string \<Rightarrow> int \<Rightarrow> Node" where
  "letStatement name col =
     Node (mkInfo VariableStatement)
       [Node (mkInfo VariableDeclarationList)
          [Node (named name (mkInfo VariableDeclaration))
             [identifierAt name col, leaf NumericLiteral]]]"

text \<open>\<^verbatim>\<open>x += y;\<close>\<close>

definition compoundAssignment :: Node where
  "compoundAssignment =
     Node (mkInfo ExpressionStatement)
       [Node (mkInfo BinaryExpression)
          [identifierAt ''x'' 1, leaf PlusEqualsToken, identifierAt ''y'' 6]]"

text \<open>The file \<^verbatim>\<open>let x = 1; let y = 2; x = y;\<close>\<close>

definition assignmentFile :: SourceFile where
  "assignmentFile =
     sourceFileOf ''/work/project/src/a.ts'' ''let x = 1; let y = 2; x = y;''
       [letStatement ''x'' 5, letStatement ''y'' 16, assignment]"

text \<open>
  The occurrences of \<^verbatim>\<open>y\<close> in that file: the name in its declaration and the right
  operand of the assignment.
\<close>

definition declarationOfY :: NodeRef where
  "declarationOfY = \<lparr> refRoot = root assignmentFile, refPath = [1, 0, 0, 0] \<rparr>"

definition useOfY :: NodeRef where
  "useOfY = \<lparr> refRoot = root assignmentFile, refPath = [2, 0, 2] \<rparr>"

text \<open>The left operand \<^verbatim>\<open>x\<close> of \<^verbatim>\<open>x += y\<close>.\<close>

definition compoundTarget :: NodeRef where
  "compoundTarget = \<lparr> refRoot = compoundAssignment, refPath = [0, 0] \<rparr>"

text \<open>The request for the references of the \<^verbatim>\<open>y\<close> at line 0, character 26 of that file.\<close>

definition referenceParams :: FindReferencesParams where
  "referenceParams =
     \<lparr> frFilePath = ''src/a.ts'', frPosition = \<lparr> line = 0, character = 26 \<rparr>,
       frIncludeDeclaration = False, frScope = ScopeFile, frMaxResults = 100 \<rparr>"

text \<open>\<^verbatim>\<open>namespace N { function h(a, b) { if (a) { if (b) { return 1; } } return 0; } }\<close>\<close>

definition nestedFunction :: Node where
  "nestedFunction =
     Node (named ''h'' (mkInfo FunctionDeclaration))
       [leaf Identifier,
        Node (mkInfo Parameter) [leaf Identifier],
        Node (mkInfo Parameter) [leaf Identifier],
        Node (mkInfo Block)
          [Node (mkInfo IfStatement)
             [leaf Identifier,
              Node (mkInfo Block)
                [Node (mkInfo IfStatement)
                   [leaf Identifier,
                    Node (mkInfo Block) [Node (mkInfo ReturnStatement) [leaf NumericLiteral]]]]],
           Node (mkInfo ReturnStatement) [leaf NumericLiteral]]]"

definition namespaceFile :: SourceFile where
  "namespaceFile =
     sourceFileOf ''/work/project/src/n.ts''
       ''namespace N { function h(a, b) { if (a) { if (b) { return 1; } } return 0; } }''
       [Node (named ''N'' (mkInfo ModuleDeclaration))
          [leaf Identifier, Node (mkInfo ModuleBlock) [nestedFunction]]]"

text \<open>A type table in which the classes \<^verbatim>\<open>A\<close> and \<^verbatim>\<open>B\<close> extend each other.\<close>

definition cyclicTypes :: "nat \<Rightarrow> TypeData" where
  "cyclicTypes t =
     (if t = 0 then
        \<lparr> tySymbol = Some \<lparr> tsName = ''A'',
                            tsDeclarations = [\<lparr> tdNode = leaf ClassDeclaration, tdTypeParameters = None \<rparr>] \<rparr>,
          tyBaseTypes = [1] \<rparr>
      else if t = 1 then
        \<lparr> tySymbol = Some \<lparr> tsName = ''B'',
                            tsDeclarations = [\<lparr> tdNode = leaf ClassDeclaration, tdTypeParameters = None \<rparr>] \<rparr>,
          tyBaseTypes = [0] \<rparr>
      else \<lparr> tySymbol = None, tyBaseTypes = [] \<rparr>)"

text \<open>
  A project in the directory \<^verbatim>\<open>/work/project\<close> with the four files above; the position
  asked about is that of \<^verbatim>\<open>y\<close> in the assignment, and the language service reports the
  two occurrences of \<^verbatim>\<open>y\<close>.
\<close>

definition exampleEnv :: Env where
  "exampleEnv =
     \<lparr> cwd = ''/work/project'',
       minimatch = (\<lambda>path pattern. False),
       fileSystem = (\<lambda>path.
          if path = ''src/g.ts'' then Some branchFile
          else if path = ''src/c.ts'' then Some classFile
          else if path = ''src/a.ts'' then Some assignmentFile
          else if path = ''src/n.ts'' then Some namespaceFile
          else None),
       findFiles = (\<lambda>pattern. []),
       descendantAtPos = (\<lambda>sf pos. Some \<lparr> refRoot = root sf, refPath = [2, 0, 2] \<rparr>),
       languageService = (\<lambda>loaded identifier. [[declarationOfY, useOfY]]),
       typeTable = cyclicTypes \<rparr>"

definition classParams :: AnalyzeFileParams where
  "classParams =
     \<lparr> afFilePath = ''src/c.ts'', afAnalysisType = AtAll, afDepth = 2, afIncludePrivate = False,
       afIncludeNodeModules = False, afOutputFormat = OfSummary \<rparr>"

definition classResult :: AnalyzeFileResult where
  "classResult =
     \<lparr> afSummary = \<lparr> totalSymbols = 3, complexity = 1, dependencies = [] \<rparr>,
       afSymbols = None, afDiagnostics = None, afFileSize = 48, afAnalysisTimeMs = 0 \<rparr>"

definition severityParams :: DetectCodeSmellsParams where
  "severityParams =
     \<lparr> dsFilePath = Some ''src/g.ts'', dsCategories = Some [CatComplexity],
       dsThreshold = Some \<lparr> thComplexity = Some 1, thFileSize = None, thFunctionSize = None \<rparr> \<rparr>"

definition severityResult :: DetectCodeSmellsResult where
  "severityResult =
     \<lparr> dsSmells =
         [\<lparr> smType = CatComplexity, smSeverity = Medium,
            smLocation = \<lparr> locFile = ''/work/project/src/g.ts'',
                           position = \<lparr> line = 0, character = 0 \<rparr>,
                           endPosition = Some \<lparr> line = 0, character = 0 \<rparr> \<rparr>,
            smMessage = ''Function has cyclomatic complexity of 2'',
            smSuggestion = Some ''Consider breaking this function into smaller, more focused functions'' \<rparr>],
       dsSummary = \<lparr> ssTotal = 1, ssByCategory = [(CatComplexity, 1)],
                     ssHigh = 0, ssMedium = 1, ssLow = 0 \<rparr> \<rparr>"

text \<open>\<^verbatim>\<open>function h(a, b) { if (a) { if (b) { return 1; } } return 0; }\<close> as a file of its own.\<close>

definition topLevelFile :: SourceFile where
  "topLevelFile =
     sourceFileOf ''/work/project/src/h.ts''
       ''function h(a, b) { if (a) { if (b) { return 1; } } return 0; }''
       [nestedFunction]"

text \<open>
  The same project when \<open>findFiles\<close> finds three of its files, under their absolute paths
  as the search returns them.
\<close>

definition sweepEnv :: Env where
  "sweepEnv =
     exampleEnv
       \<lparr> fileSystem := (\<lambda>path.
            if path = ''/work/project/src/g.ts'' then Some branchFile
            else if path = ''/work/project/src/h.ts'' then Some topLevelFile
            else if path = ''/work/project/src/n.ts'' then Some namespaceFile
            else None),
         findFiles := (\<lambda>pattern.
            [''/work/project/src/g.ts'', ''/work/project/src/h.ts'', ''/work/project/src/n.ts'']) \<rparr>"

text \<open>
  Calls of \<open>detectCodeSmells\<close> with the complexity threshold 1 and the default categories:
  on the whole project, and on the file with the namespace.
\<close>

definition sweepParams :: DetectCodeSmellsParams where
  "sweepParams =
     \<lparr> dsFilePath = None, dsCategories = None,
       dsThreshold = Some \<lparr> thComplexity = Some 1, thFileSize = None, thFunctionSize = None \<rparr> \<rparr>"

definition namespaceParams :: DetectCodeSmellsParams where
  "namespaceParams =
     \<lparr> dsFilePath = Some ''src/n.ts'', dsCategories = None,
       dsThreshold = Some \<lparr> thComplexity = Some 1, thFileSize = None, thFunctionSize = None \<rparr> \<rparr>"

definition noDetectors :: Detectors where
  "noDetectors =
     \<lparr> namingFindings = (\<lambda>sf. ([], None)),
       unusedCodeFindings = (\<lambda>sf. ([], None)),
       asyncIssueFindings = (\<lambda>sf. ([], None)),
       couplingFindings = (\<lambda>sf. ([], None)) \<rparr>"

definition noAssemblers :: ContextAssemblers where
  "noAssemblers =
     \<lparr> extractFunctionContext = (\<lambda>r t. []),
       extractClassContext = (\<lambda>r t. []),
       extractModuleContext = (\<lambda>sf t. []),
       extractRelatedContext = (\<lambda>r t. []) \<rparr>"

text \<open>
  The arguments \<^verbatim>\<open>({filePath: "src/a.ts", position: {line: 3, character: 7}, scope: "file"}, 100)\<close>
  and the same arguments with the keys of the objects written in another order.
\<close>

definition orderedParams :: "json list" where
  "orderedParams =
     [JObject [(''filePath'', JString ''src/a.ts''),
               (''position'', JObject [(''line'', JNumber 3), (''character'', JNumber 7)]),
               (''scope'', JString ''file'')],
      JNumber 100]"

definition reorderedParams :: "json list" where
  "reorderedParams =
     [JObject [(''scope'', JString ''file''),
               (''position'', JObject [(''character'', JNumber 7), (''line'', JNumber 3)]),
               (''filePath'', JString ''src/a.ts'')],
      JNumber 100]"




section \<open>Verification\<close>

subsection \<open>Cyclomatic complexity\<close>

lemma foldl_count: "foldl (\<lambda>c x. if P x then c + 1 else c) (a::nat) xs = a + length (filter P xs)"
  by (induction xs arbitrary: a) auto

lemma getNodeComplexity_branchCount: "getNodeComplexity n = 1 + branchCount n"
  by (simp add: getNodeComplexity_def branchCount_def foldl_count)

lemma branchCount_Node: "branchCount (Node i cs) = sum_list (map weight cs)"
  by (induction cs) (auto simp: branchCount_def weight_def)

lemma branchCount_insertAt:
  "validPos p n \<Longrightarrow> branchCount (insertAt p new n) = branchCount n + weight new"
proof (induction p new n rule: insertAt.induct)
  case (1 new n)
  then show ?case by simp
next
  case (2 k new i cs)
  have "sum_list (map weight (take k cs)) + sum_list (map weight (drop k cs)) = sum_list (map weight cs)"
    by (metis append_take_drop_id map_append sum_list_append)
  then show ?case by (simp add: branchCount_Node)
next
  case (3 k v va new i cs)
  then have k: "k < length cs" and v: "validPos (v # va) (cs ! k)" by auto
  have ih: "branchCount (insertAt (v # va) new (cs ! k)) = branchCount (cs ! k) + weight new"
    using 3 k v by simp
  have kk: "getKind (insertAt (v # va) new (cs ! k)) = getKind (cs ! k)"
    by (cases "cs ! k"; cases va) auto
  have w: "weight (insertAt (v # va) new (cs ! k)) = weight (cs ! k) + weight new"
    using ih kk by (simp add: weight_def)
  have "sum_list ((map weight cs)[k := weight (insertAt (v # va) new (cs ! k))]) =
        sum_list (map weight cs) + weight (insertAt (v # va) new (cs ! k)) - (map weight cs) ! k"
    using k by (simp add: sum_list_update)
  then show ?case using k w by (simp add: branchCount_Node map_update)
qed

text \<open>
  Claim C2, as the code has it. The complexity \<open>getNodeComplexity\<close> computes for a node is 1
  plus the number of its descendants that are an if statement, a for, for-in, for-of, while or
  do statement, a conditional expression, a catch clause, a case clause, or a binary
  expression of any operator (arithmetic, comparison and assignment included, not only the
  logical ones). A node with no such descendant has complexity 1, and adding one if statement
  that contains no such construct, anywhere in the node, raises the complexity by exactly 1.
\<close>

theorem getNodeComplexity_counts:
  "getNodeComplexity n =
     1 + length (filter (\<lambda>d. getKind d \<in> {IfStatement, ForStatement, ForInStatement,
                                 ForOfStatement, WhileStatement, DoStatement,
                                 ConditionalExpression, CatchClause, CaseClause,
                                 BinaryExpression}) (descendants n))
   \<and> ((\<forall>d \<in> set (descendants n). \<not> countsTowardsComplexity (getKind d)) \<longrightarrow>
        getNodeComplexity n = 1)
   \<and> (validPos p n \<and> getKind stmt = IfStatement \<and>
        (\<forall>d \<in> set (descendants stmt). \<not> countsTowardsComplexity (getKind d)) \<longrightarrow>
        getNodeComplexity (insertAt p stmt n) = getNodeComplexity n + 1)"
proof (intro conjI impI)
  have "(\<lambda>d. getKind d \<in> {IfStatement, ForStatement, ForInStatement,
                                 ForOfStatement, WhileStatement, DoStatement,
                                 ConditionalExpression, CatchClause, CaseClause,
                                 BinaryExpression}) = (\<lambda>d. countsTowardsComplexity (getKind d))"
    by (auto simp: countsTowardsComplexity_def)
  then show "getNodeComplexity n =
     1 + length (filter (\<lambda>d. getKind d \<in> {IfStatement, ForStatement, ForInStatement,
                                 ForOfStatement, WhileStatement, DoStatement,
                                 ConditionalExpression, CatchClause, CaseClause,
                                 BinaryExpression}) (descendants n))"
    by (simp add: getNodeComplexity_branchCount branchCount_def)
next
  assume "\<forall>d \<in> set (descendants n). \<not> countsTowardsComplexity (getKind d)"
  then have "filter (\<lambda>d. countsTowardsComplexity (getKind d)) (descendants n) = []"
    by (simp add: filter_empty_conv)
  then show "getNodeComplexity n = 1"
    by (simp add: getNodeComplexity_branchCount branchCount_def)
next
  assume a: "validPos p n \<and> getKind stmt = IfStatement \<and>
        (\<forall>d \<in> set (descendants stmt). \<not> countsTowardsComplexity (getKind d))"
  then have "filter (\<lambda>d. countsTowardsComplexity (getKind d)) (descendants stmt) = []"
    by (simp add: filter_empty_conv)
  then have "weight stmt = 1"
    using a by (simp add: weight_def branchCount_def countsTowardsComplexity_def)
  then show "getNodeComplexity (insertAt p stmt n) = getNodeComplexity n + 1"
    using a branchCount_insertAt[of p n stmt] by (simp add: getNodeComplexity_branchCount)
qed

theorem getNodeComplexity_counts_witness:
  "list_all (\<lambda>d. \<not> countsTowardsComplexity (getKind d)) (descendants plainFunction)
   \<and> validPos [2, 0] plainFunction \<and> getKind ifStatement = IfStatement
   \<and> list_all (\<lambda>d. \<not> countsTowardsComplexity (getKind d)) (descendants ifStatement)
   \<and> getNodeComplexity plainFunction = 1
   \<and> getNodeComplexity (insertAt [2, 0] ifStatement plainFunction) = 2"
proof -
  have l1: "list_all (\<lambda>d. \<not> countsTowardsComplexity (getKind d)) (descendants plainFunction)"
    by code_simp
  have h2: "validPos [2, 0] plainFunction" by code_simp
  have h3: "getKind ifStatement = IfStatement" by code_simp
  have l4: "list_all (\<lambda>d. \<not> countsTowardsComplexity (getKind d)) (descendants ifStatement)"
    by code_simp
  have h1: "\<forall>d \<in> set (descendants plainFunction). \<not> countsTowardsComplexity (getKind d)"
    using l1 by (simp add: list_all_iff)
  have h4: "\<forall>d \<in> set (descendants ifStatement). \<not> countsTowardsComplexity (getKind d)"
    using l4 by (simp add: list_all_iff)
  have c1: "getNodeComplexity plainFunction = 1"
    using getNodeComplexity_counts[of plainFunction "[2, 0]" ifStatement] h1 by blast
  have "getNodeComplexity (insertAt [2, 0] ifStatement plainFunction) = getNodeComplexity plainFunction + 1"
    using getNodeComplexity_counts[of plainFunction "[2, 0]" ifStatement] h2 h3 h4 by blast
  then have c2: "getNodeComplexity (insertAt [2, 0] ifStatement plainFunction) = 2"
    using c1 by simp
  show ?thesis using l1 h2 h3 l4 c1 c2 by blast
qed

text \<open>
  The claim as stated counts only the binary expressions with a logical operator. For
  \<^verbatim>\<open>function f(a, b) { return a + b; }\<close> that count gives 1, and the code gives 2.
\<close>

theorem complexity_counts_arithmetic_counterexample:
  "getNodeComplexity sumFunction = 2 \<and> spec_complexity sumFunction = 1 \<and>
   getNodeComplexity sumFunction \<noteq> spec_complexity sumFunction"
  by code_simp

subsection \<open>Paths\<close>

lemma split_nonempty: "split sep s \<noteq> []"
  by (induction s) (auto split: list.splits)

lemma split_append: "split sep (a @ sep # b) = split sep a @ split sep b"
  using split_nonempty by (induction a) (auto split: list.splits)

lemma split_no_sep: "sep \<notin> set s \<Longrightarrow> split sep s = [s]"
  by (induction s) (auto split: list.splits)

lemma split_segments_no_sep: "w \<in> set (split sep s) \<Longrightarrow> sep \<notin> set w"
  by (induction s arbitrary: w) (auto split: list.splits if_splits)

lemma split_join:
  "segs \<noteq> [] \<Longrightarrow> \<forall>w\<in>set segs. sep \<notin> set w \<Longrightarrow> split sep (join [sep] segs) = segs"
proof (induction "[sep]" segs rule: join.induct)
  case 1 then show ?case by simp
next
  case (2 x) then show ?case by (simp add: split_no_sep)
next
  case (3 x y ys)
  then show ?case using split_append[of sep x "join [sep] (y # ys)"] by (simp add: split_no_sep)
qed

lemma dotdot_nonempty: "dotdot \<noteq> []"
  by (simp add: dotdot_def)

lemma dot_neq_dotdot: "dot \<noteq> dotdot"
  by (simp add: dot_def dotdot_def)

lemma normalizeStep_cases:
  "normalizeStep a b x = b \<or> normalizeStep a b x = tl b \<or>
   (normalizeStep a b x = x # b \<and> x \<noteq> [] \<and> x \<noteq> dot \<and> (a \<or> x \<noteq> dotdot))"
proof (cases b)
  case Nil
  then show ?thesis by (simp add: normalizeStep_def dotdot_nonempty dot_neq_dotdot[symmetric])
next
  case (Cons s rest)
  then show ?thesis by (simp add: normalizeStep_def dotdot_nonempty dot_neq_dotdot[symmetric])
qed

lemma set_tl_subset: "s \<in> set (tl b) \<Longrightarrow> s \<in> set b"
  by (cases b) simp_all

lemma normalizeStep_kept:
  "\<forall>s\<in>set b. kept s \<Longrightarrow> \<forall>s\<in>set (normalizeStep a b x). kept s"
  using normalizeStep_cases[of a b x] set_tl_subset[of _ b] by (auto simp: kept_def)

lemma foldl_normalizeStep_kept:
  "\<forall>s\<in>set b. kept s \<Longrightarrow> \<forall>s\<in>set (foldl (normalizeStep a) b xs). kept s"
proof (induction xs arbitrary: b)
  case Nil then show ?case by simp
next
  case (Cons x xs)
  show ?case using Cons.IH[OF normalizeStep_kept[OF Cons.prems]] by simp
qed

lemma normalizeStep_no_sep:
  "\<forall>s\<in>set b. c \<notin> set s \<Longrightarrow> c \<notin> set x \<Longrightarrow> \<forall>s\<in>set (normalizeStep a b x). c \<notin> set s"
  using normalizeStep_cases[of a b x] set_tl_subset[of _ b] by auto

lemma foldl_normalizeStep_no_sep:
  "\<forall>s\<in>set b. c \<notin> set s \<Longrightarrow> \<forall>x\<in>set xs. c \<notin> set x \<Longrightarrow>
   \<forall>s\<in>set (foldl (normalizeStep a) b xs). c \<notin> set s"
proof (induction xs arbitrary: b)
  case Nil then show ?case by simp
next
  case (Cons x xs)
  have "\<forall>s\<in>set (normalizeStep a b x). c \<notin> set s"
    using normalizeStep_no_sep[of b c x a] Cons.prems by simp
  then show ?case using Cons.IH[of "normalizeStep a b x"] Cons.prems by simp
qed

lemma normalizeStep_no_dotdot:
  "\<forall>s\<in>set b. s \<noteq> dotdot \<Longrightarrow> \<forall>s\<in>set (normalizeStep False b x). s \<noteq> dotdot"
  using normalizeStep_cases[of False b x] set_tl_subset[of _ b] by auto

lemma foldl_normalizeStep_no_dotdot:
  "\<forall>s\<in>set b. s \<noteq> dotdot \<Longrightarrow> \<forall>s\<in>set (foldl (normalizeStep False) b xs). s \<noteq> dotdot"
proof (induction xs arbitrary: b)
  case Nil then show ?case by simp
next
  case (Cons x xs)
  show ?case using Cons.IH[OF normalizeStep_no_dotdot[OF Cons.prems]] by simp
qed

text \<open>Normalising a relative path first does not change what it resolves to.\<close>

lemma renormalize_step:
  assumes "\<forall>s\<in>set b. kept s"
  shows "normalizeStep False (foldl (normalizeStep False) acc (rev b)) x =
         foldl (normalizeStep False) acc (rev (normalizeStep True b x))"
proof (cases "x = [] \<or> x = dot")
  case True
  then show ?thesis by (auto simp: normalizeStep_def dotdot_nonempty dot_neq_dotdot[symmetric])
next
  case nd: False
  show ?thesis
  proof (cases "x = dotdot")
    case False
    with nd show ?thesis by (simp add: normalizeStep_def dotdot_nonempty dot_neq_dotdot[symmetric])
  next
    case dd: True
    show ?thesis
    proof (cases b)
      case Nil
      with dd show ?thesis by (simp add: normalizeStep_def dotdot_nonempty dot_neq_dotdot[symmetric])
    next
      case (Cons s rest)
      show ?thesis
      proof (cases "s = dotdot")
        case True
        with dd Cons show ?thesis by (simp add: normalizeStep_def dotdot_nonempty dot_neq_dotdot[symmetric])
      next
        case False
        have ks: "s \<noteq> [] \<and> s \<noteq> dot" using assms Cons by (simp add: kept_def)
        have "normalizeStep False (foldl (normalizeStep False) acc (rev rest)) s =
              s # foldl (normalizeStep False) acc (rev rest)"
          using ks False by (simp add: normalizeStep_def dotdot_nonempty dot_neq_dotdot[symmetric])
        then show ?thesis using dd Cons False by (simp add: normalizeStep_def dotdot_nonempty dot_neq_dotdot[symmetric])
      qed
    qed
  qed
qed

lemma renormalize:
  "\<forall>s\<in>set b. kept s \<Longrightarrow>
   foldl (normalizeStep False) (foldl (normalizeStep False) acc (rev b)) xs =
   foldl (normalizeStep False) acc (rev (foldl (normalizeStep True) b xs))"
proof (induction xs arbitrary: b)
  case Nil then show ?case by simp
next
  case (Cons x xs)
  have k: "\<forall>s\<in>set (normalizeStep True b x). kept s"
    using normalizeStep_kept[OF Cons.prems] .
  show ?case using Cons.IH[OF k] renormalize_step[OF Cons.prems, of acc x] by simp
qed

lemma foldl_names:
  "\<forall>s\<in>set xs. kept s \<and> s \<noteq> dotdot \<Longrightarrow> foldl (normalizeStep False) acc xs = rev xs @ acc"
  by (induction xs arbitrary: acc) (auto simp: normalizeStep_def kept_def)


lemma normalizeStep_empty [simp]: "normalizeStep a acc [] = acc"
  by (simp add: normalizeStep_def)

lemma normalizeStep_dot [simp]: "normalizeStep a acc dot = acc"
  by (simp add: normalizeStep_def)

lemma split_slash_end: "split sep (p @ [sep]) = split sep p @ [[]]"
  using split_append[of sep p "[]"] by simp

lemma split_Cons_sep: "split sep (sep # p) = [] # split sep p"
  by simp

lemma resolve_relative:
  assumes "isAbsolute wd" "\<not> isAbsolute p"
  shows "path_resolve wd p =
         rev (foldl (normalizeStep False) (foldl (normalizeStep False) [] (split CHR ''/'' wd)) (split CHR ''/'' p))"
proof (cases "p = []")
  case True
  then show ?thesis using assms split_slash_end[of "CHR ''/''" wd]
    by (simp add: path_resolve_def normalizeString_def)
next
  case False
  have "split CHR ''/'' (wd @ CHR ''/'' # (p @ ''/'')) =
        split CHR ''/'' wd @ split CHR ''/'' p @ [[]]"
    using split_append[of "CHR ''/''" wd "p @ ''/''"] split_slash_end[of "CHR ''/''" p] by simp
  then show ?thesis using False assms
    by (simp add: path_resolve_def normalizeString_def)
qed

lemma resolve_absolute:
  assumes "isAbsolute p"
  shows "path_resolve wd p = rev (foldl (normalizeStep False) [] (split CHR ''/'' p))"
proof -
  have "p \<noteq> []" using assms by (auto simp: isAbsolute_def)
  then show ?thesis using assms split_slash_end[of "CHR ''/''" p]
    by (simp add: path_resolve_def normalizeString_def)
qed

lemma join_Cons_hd: "x \<noteq> [] \<Longrightarrow> join sep (x # xs) \<noteq> [] \<and> hd (join sep (x # xs)) = hd x"
  by (cases xs) auto

lemma split_kept_segments:
  "\<forall>s\<in>set (foldl (normalizeStep a) [] (split CHR ''/'' p)). kept s \<and> CHR ''/'' \<notin> set s"
proof -
  have 1: "\<forall>s\<in>set (foldl (normalizeStep a) [] (split CHR ''/'' p)). kept s"
    using foldl_normalizeStep_kept[of "[]" a] by simp
  have "\<forall>x\<in>set (split CHR ''/'' p). CHR ''/'' \<notin> set x"
    using split_segments_no_sep by blast
  then have 2: "\<forall>s\<in>set (foldl (normalizeStep a) [] (split CHR ''/'' p)). CHR ''/'' \<notin> set s"
    using foldl_normalizeStep_no_sep[of "[]" "CHR ''/''" "split CHR ''/'' p" a] by simp
  show ?thesis using 1 2 by blast
qed

lemma split_dot: "split CHR ''/'' ''.'' = [dot]"
  by (simp add: dot_def)

lemma split_dot_slash: "split CHR ''/'' ''./'' = [dot, []]"
  by (simp add: dot_def)

lemma not_abs_dot: "\<not> isAbsolute ''.''" "\<not> isAbsolute ''./''"
  by (simp_all add: isAbsolute_def)

lemma resolve_dot:
  assumes "isAbsolute wd"
  shows "path_resolve wd ''.'' = rev (foldl (normalizeStep False) [] (split CHR ''/'' wd))"
    and "path_resolve wd ''./'' = rev (foldl (normalizeStep False) [] (split CHR ''/'' wd))"
proof -
  show "path_resolve wd ''.'' = rev (foldl (normalizeStep False) [] (split CHR ''/'' wd))"
    unfolding resolve_relative[OF assms not_abs_dot(1)] split_dot by simp
  show "path_resolve wd ''./'' = rev (foldl (normalizeStep False) [] (split CHR ''/'' wd))"
    unfolding resolve_relative[OF assms not_abs_dot(2)] split_dot_slash by simp
qed

lemma resolve_normalize_relative:
  assumes wd: "isAbsolute wd" and rel: "\<not> isAbsolute p" and ne: "p \<noteq> []"
  shows "path_resolve wd (path_normalize p) = path_resolve wd p"
proof -
  define A where "A = foldl (normalizeStep False) [] (split CHR ''/'' wd)"
  define T where "T = foldl (normalizeStep True) [] (split CHR ''/'' p)"
  have target: "path_resolve wd p = rev (foldl (normalizeStep False) A (rev T))"
    using resolve_relative[OF wd rel] renormalize[of "[]" A "split CHR ''/'' p"]
    by (simp add: A_def T_def)
  have segs: "\<forall>s\<in>set T. kept s \<and> CHR ''/'' \<notin> set s"
    unfolding T_def using split_kept_segments by blast
  have nstr: "normalizeString p True = rev T"
    by (simp add: normalizeString_def T_def)
  show ?thesis
  proof (cases "T = []")
    case True
    have np: "path_normalize p = ''.'' \<or> path_normalize p = ''./''"
      using ne rel True nstr by (simp add: path_normalize_def Let_def)
    have "path_resolve wd (path_normalize p) = rev A"
      using np resolve_dot[OF wd] unfolding A_def by metis
    then show ?thesis using target True by simp
  next
    case False
    then obtain x xs where xxs: "rev T = x # xs" by (cases "rev T") auto
    have x: "x \<noteq> [] \<and> CHR ''/'' \<notin> set x"
      using segs xxs by (metis kept_def list.set_intros(1) set_rev)
    define norm where "norm = join ''/'' (rev T)"
    have norm: "norm \<noteq> [] \<and> hd norm = hd x"
      unfolding norm_def xxs using join_Cons_hd x by blast
    define tr where "tr = (if last p = CHR ''/'' then ''/'' else [])"
    have np: "path_normalize p = norm @ tr"
      using ne rel norm nstr unfolding path_normalize_def Let_def norm_def tr_def by simp
    have "hd x \<noteq> CHR ''/''" using x by (cases x) auto
    then have nabs: "\<not> isAbsolute (norm @ tr)"
      using norm by (simp add: isAbsolute_def)
    have sj: "split CHR ''/'' norm = rev T"
      unfolding norm_def using split_join[of "rev T" "CHR ''/''"] False segs by simp
    have "split CHR ''/'' (norm @ tr) = rev T \<or> split CHR ''/'' (norm @ tr) = rev T @ [[]]"
      unfolding tr_def using sj split_slash_end[of "CHR ''/''" norm] by simp
    then have "foldl (normalizeStep False) A (split CHR ''/'' (norm @ tr)) = foldl (normalizeStep False) A (rev T)"
      by auto
    then have "path_resolve wd (norm @ tr) = rev (foldl (normalizeStep False) A (rev T))"
      unfolding resolve_relative[OF wd nabs] A_def by simp
    then show ?thesis using target np by simp
  qed
qed

lemma resolve_normalize_absolute:
  assumes ab: "isAbsolute p"
  shows "path_resolve wd (path_normalize p) = path_resolve wd p"
proof -
  define F where "F = foldl (normalizeStep False) [] (split CHR ''/'' p)"
  have ne: "p \<noteq> []" using ab by (auto simp: isAbsolute_def)
  have target: "path_resolve wd p = rev F"
    using resolve_absolute[OF ab] by (simp add: F_def)
  have segs: "\<forall>s\<in>set F. kept s \<and> CHR ''/'' \<notin> set s"
    unfolding F_def using split_kept_segments by blast
  have nodd: "\<forall>s\<in>set F. s \<noteq> dotdot"
    unfolding F_def using foldl_normalizeStep_no_dotdot[of "[]"] by simp
  have nstr: "normalizeString p False = rev F"
    by (simp add: normalizeString_def F_def)
  show ?thesis
  proof (cases "F = []")
    case True
    have np: "path_normalize p = ''/''"
      using ne ab True nstr by (simp add: path_normalize_def Let_def)
    have "isAbsolute ''/''" by (simp add: isAbsolute_def)
    from resolve_absolute[OF this] have "path_resolve wd ''/'' = []" by simp
    then show ?thesis using np target True by simp
  next
    case False
    then obtain x xs where xxs: "rev F = x # xs" by (cases "rev F") auto
    have x: "x \<noteq> []"
      using segs xxs by (metis kept_def list.set_intros(1) set_rev)
    define norm where "norm = join ''/'' (rev F)"
    have norm: "norm \<noteq> []"
      unfolding norm_def xxs using join_Cons_hd x by blast
    define tr where "tr = (if last p = CHR ''/'' then ''/'' else [])"
    have np: "path_normalize p = CHR ''/'' # norm @ tr"
      using ne ab norm nstr unfolding path_normalize_def Let_def norm_def tr_def by simp
    have abs': "isAbsolute (CHR ''/'' # norm @ tr)" by (simp add: isAbsolute_def)
    have sj: "split CHR ''/'' norm = rev F"
      unfolding norm_def using split_join[of "rev F" "CHR ''/''"] False segs by simp
    have "split CHR ''/'' (norm @ tr) = rev F \<or> split CHR ''/'' (norm @ tr) = rev F @ [[]]"
      unfolding tr_def using sj split_slash_end[of "CHR ''/''" norm] by simp
    then have "foldl (normalizeStep False) [] (split CHR ''/'' (norm @ tr)) = foldl (normalizeStep False) [] (rev F)"
      by auto
    moreover have "foldl (normalizeStep False) [] (rev F) = F"
      using foldl_names[of "rev F" "[]"] segs nodd by simp
    ultimately have "foldl (normalizeStep False) [] (split CHR ''/'' (CHR ''/'' # norm @ tr)) = F"
      by simp
    then have "path_resolve wd (CHR ''/'' # norm @ tr) = rev F"
      unfolding resolve_absolute[OF abs'] by simp
    then show ?thesis using target np by simp
  qed
qed

lemma resolve_normalize:
  assumes "isAbsolute wd"
  shows "path_resolve wd (path_normalize p) = path_resolve wd p"
proof (cases "p = []")
  case True
  have "path_normalize [] = ''.''" by (simp add: path_normalize_def)
  moreover have "path_resolve wd [] = rev (foldl (normalizeStep False) [] (split CHR ''/'' wd))"
    using resolve_relative[OF assms, of "[]"] by (simp add: isAbsolute_def)
  ultimately show ?thesis using True resolve_dot(1)[OF assms] by simp
next
  case False
  then show ?thesis
    using resolve_normalize_relative[OF assms] resolve_normalize_absolute by blast
qed

lemma join_dotdot_startsWith:
  "n > 0 \<Longrightarrow> startsWith (join ''/'' (replicate n dotdot @ rest)) ''..''"
proof -
  assume "n > 0"
  then obtain m where "n = Suc m" by (cases n) auto
  then have "join ''/'' (replicate n dotdot @ rest) = dotdot @ (if replicate m dotdot @ rest = [] then [] else ''/'' @ join ''/'' (replicate m dotdot @ rest))"
    by (cases "replicate m dotdot @ rest") auto
  then show ?thesis by (simp add: startsWith_def dotdot_def)
qed

lemma relative_outside:
  assumes out: "\<not> prefix (path_resolve wd a) (path_resolve wd b)"
  shows "startsWith (path_relative wd a b) ''..''"
proof -
  let ?F = "path_resolve wd a" and ?T = "path_resolve wd b"
  have ne: "a \<noteq> b" "?F \<noteq> ?T" using out by auto
  have "longest_common_prefix ?F ?T \<noteq> ?F"
    using out longest_common_prefix_prefix2[of ?F ?T] by auto
  moreover have "prefix (longest_common_prefix ?F ?T) ?F"
    by (rule longest_common_prefix_prefix1)
  ultimately have "length (longest_common_prefix ?F ?T) < length ?F"
    by (metis prefix_length_le le_neq_implies_less prefix_length_prefix order_refl prefix_order.antisym prefix_order.refl)
  then show ?thesis using ne join_dotdot_startsWith
    by (simp add: path_relative_def Let_def)
qed

lemma validatePath_outside:
  assumes "isAbsolute wd" "\<not> prefix (path_resolve wd wd) (path_resolve wd fp)"
  shows "validatePath wd mm fp = Inl (AnalysisError SCOPE_ERROR ''Path is outside allowed scope'')"
proof -
  have "\<not> prefix (path_resolve wd wd) (path_resolve wd (path_normalize fp))"
    using assms resolve_normalize by simp
  from relative_outside[OF this] show ?thesis by (simp add: validatePath_def Let_def)
qed

lemma resolvesOutside_nonempty:
  assumes "isAbsolute wd" "resolvesOutside wd fp"
  shows "fp \<noteq> []"
proof
  assume "fp = []"
  have "path_resolve wd [] = rev (foldl (normalizeStep False) [] (split CHR ''/'' wd))"
    using resolve_relative[OF assms(1), of "[]"] by (simp add: isAbsolute_def)
  moreover have "path_resolve wd wd = rev (foldl (normalizeStep False) [] (split CHR ''/'' wd))"
    using resolve_absolute[OF assms(1)] by simp
  ultimately show False using assms(2) \<open>fp = []\<close> by (simp add: resolvesOutside_def)
qed

lemma validatePath_resolvesOutside:
  assumes "isAbsolute wd" "resolvesOutside wd fp"
  shows "validatePath wd mm fp = Inl (AnalysisError SCOPE_ERROR ''Path is outside allowed scope'')"
  using validatePath_outside[OF assms(1)] assms(2) by (simp add: resolvesOutside_def)

text \<open>
  Claim C5. The working directory is an absolute path, and the path given resolves outside
  it. Then \<open>analyzeFile\<close>, \<open>getSymbolInfo\<close>, \<open>findReferences\<close> and \<open>extractContext\<close>
  fail with the error code \<open>SCOPE_ERROR\<close> and have loaded no file. \<open>detectCodeSmells\<close>
  with this path as \<open>filePath\<close> loads no file either, but it does not fail: it calls
  \<open>validatePath\<close> inside the \<open>try\<close> block of the task of the file, the \<open>catch\<close> clause
  logs the error, and the caller gets a result with no smells and a total of 0, where the
  claim has the operation fail with the scope error as the other four do.
\<close>

theorem scope_error_outside_paths:
  assumes "isAbsolute (cwd env)" and "resolvesOutside (cwd env) fp"
  shows
    "analyzeFile env (ap \<lparr> afFilePath := fp \<rparr>) =
       ([], Inl (AnalysisError SCOPE_ERROR ''Path is outside allowed scope''))
     \<and> getSymbolInfo env (gp \<lparr> gsFilePath := fp \<rparr>) =
       ([], Inl (AnalysisError SCOPE_ERROR ''Path is outside allowed scope''))
     \<and> findReferences env (rp \<lparr> frFilePath := fp \<rparr>) =
       ([], Inl (AnalysisError SCOPE_ERROR ''Path is outside allowed scope''))
     \<and> extractContext env assemblers (ep \<lparr> ecFilePath := fp \<rparr>) =
       ([], Inl (AnalysisError SCOPE_ERROR ''Path is outside allowed scope''))
     \<and> detectCodeSmells env detectors (dp \<lparr> dsFilePath := Some fp \<rparr>) =
       ([], Inr \<lparr> dsSmells = [],
                 dsSummary =
                   \<lparr> ssTotal = 0,
                     ssByCategory = map (\<lambda>cat. (cat, 0)) (rev (remdups (rev (smellCategories dp)))),
                     ssHigh = 0, ssMedium = 0, ssLow = 0 \<rparr> \<rparr>)"
proof -
  note v = validatePath_resolvesOutside[OF assms, of "minimatch env"]
  have ne: "fp \<noteq> []" using resolvesOutside_nonempty[OF assms] .
  have 1: "analyzeFile env (ap \<lparr> afFilePath := fp \<rparr>) =
       ([], Inl (AnalysisError SCOPE_ERROR ''Path is outside allowed scope''))"
    by (simp add: analyzeFile_def v)
  have 2: "getSymbolInfo env (gp \<lparr> gsFilePath := fp \<rparr>) =
       ([], Inl (AnalysisError SCOPE_ERROR ''Path is outside allowed scope''))"
    by (simp add: getSymbolInfo_def v)
  have 3: "findReferences env (rp \<lparr> frFilePath := fp \<rparr>) =
       ([], Inl (AnalysisError SCOPE_ERROR ''Path is outside allowed scope''))"
    by (simp add: findReferences_def v)
  have 4: "extractContext env assemblers (ep \<lparr> ecFilePath := fp \<rparr>) =
       ([], Inl (AnalysisError SCOPE_ERROR ''Path is outside allowed scope''))"
    by (simp add: extractContext_def v)
  have s: "smellsOfFile env detectors cats th ([], []) fp = ([], [])" for cats th
    by (simp add: smellsOfFile_def v)
  have 5: "detectCodeSmells env detectors (dp \<lparr> dsFilePath := Some fp \<rparr>) =
       ([], Inr \<lparr> dsSmells = [],
                 dsSummary =
                   \<lparr> ssTotal = 0,
                     ssByCategory = map (\<lambda>cat. (cat, 0)) (rev (remdups (rev (smellCategories dp)))),
                     ssHigh = 0, ssMedium = 0, ssLow = 0 \<rparr> \<rparr>)"
    using ne by (simp add: detectCodeSmells_def Let_def s smellFiles_def smellCategories_def)
  show ?thesis using 1 2 3 4 5 by blast
qed

theorem scope_error_outside_paths_witness:
  "isAbsolute (cwd exampleEnv) \<and> resolvesOutside (cwd exampleEnv) ''../outside/file.ts''
   \<and> analyzeFile exampleEnv
        \<lparr> afFilePath = ''../outside/file.ts'', afAnalysisType = AtAll, afDepth = 2,
          afIncludePrivate = False, afIncludeNodeModules = False, afOutputFormat = OfSummary \<rparr> =
       ([], Inl (AnalysisError SCOPE_ERROR ''Path is outside allowed scope''))
   \<and> detectCodeSmells exampleEnv noDetectors
        \<lparr> dsFilePath = Some ''../outside/file.ts'', dsCategories = None, dsThreshold = None \<rparr> =
       ([], Inr \<lparr> dsSmells = [],
                 dsSummary =
                   \<lparr> ssTotal = 0,
                     ssByCategory =
                       [(CatComplexity, 0), (CatDuplication, 0), (CatCoupling, 0), (CatNaming, 0),
                        (CatUnusedCode, 0), (CatAsyncIssues, 0)],
                     ssHigh = 0, ssMedium = 0, ssLow = 0 \<rparr> \<rparr>)"
proof -
  have h1: "isAbsolute (cwd exampleEnv)" by code_simp
  have h2: "resolvesOutside (cwd exampleEnv) ''../outside/file.ts''" by code_simp
  note t = scope_error_outside_paths[OF h1 h2,
      where ap = "\<lparr> afFilePath = [], afAnalysisType = AtAll, afDepth = 2,
          afIncludePrivate = False, afIncludeNodeModules = False, afOutputFormat = OfSummary \<rparr>"
        and dp = "\<lparr> dsFilePath = None, dsCategories = None, dsThreshold = None \<rparr>"
        and detectors = noDetectors]
  have a: "analyzeFile exampleEnv
        \<lparr> afFilePath = ''../outside/file.ts'', afAnalysisType = AtAll, afDepth = 2,
          afIncludePrivate = False, afIncludeNodeModules = False, afOutputFormat = OfSummary \<rparr> =
       ([], Inl (AnalysisError SCOPE_ERROR ''Path is outside allowed scope''))"
    using t by simp
  have d: "detectCodeSmells exampleEnv noDetectors
        \<lparr> dsFilePath = Some ''../outside/file.ts'', dsCategories = None, dsThreshold = None \<rparr> =
       ([], Inr \<lparr> dsSmells = [],
                 dsSummary =
                   \<lparr> ssTotal = 0,
                     ssByCategory =
                       [(CatComplexity, 0), (CatDuplication, 0), (CatCoupling, 0), (CatNaming, 0),
                        (CatUnusedCode, 0), (CatAsyncIssues, 0)],
                     ssHigh = 0, ssMedium = 0, ssLow = 0 \<rparr> \<rparr>)"
    using t by (simp add: smellCategories_def allCategories_def)
  show ?thesis using h1 h2 a d by blast
qed

subsection \<open>Symbol extraction\<close>

lemma extractSymbolInfo_None:
  "extractSymbolInfo node ip = None \<longleftrightarrow>
     (symbol (info node) = None \<or>
      (\<exists>smb. symbol (info node) = Some smb \<and> \<not> ip \<and> startsWith (symName smb) ''_''))"
  by (cases "symbol (info node)") (simp_all add: extractSymbolInfo_def Let_def)

lemma extractSymbolInfo_Some:
  "symbol (info node) = Some smb \<Longrightarrow> ip \<or> \<not> startsWith (symName smb) ''_'' \<Longrightarrow>
   \<exists>r. extractSymbolInfo node ip = Some r \<and> siName r = symName smb \<and>
       siModifiers r = (if length (modifierNames node) > 0 then Some (modifierNames node) else None)"
  by (auto simp: extractSymbolInfo_def Let_def)

lemma private_in_modifierNames:
  "hasModifier node PrivateKeyword \<Longrightarrow> ''private'' \<in> set (modifierNames node)"
  by (cases "modifiers (info node)") (simp_all add: modifierNames_def hasModifier_def)

text \<open>
  Claim C6. With \<open>includePrivate\<close> false, \<open>extractSymbolInfo\<close> never returns a record whose
  name starts with an underscore: it returns nothing exactly when the node has no symbol or
  the name of the symbol starts with an underscore. With \<open>includePrivate\<close> true every node
  with a symbol gives a record, whatever the name. The filter looks at the name only: a node
  with the modifier \<open>private\<close> and a name without a leading underscore is returned, with
  \<open>private\<close> among its modifiers.
\<close>

theorem extractSymbolInfo_private_filter:
  "(extractSymbolInfo node False = Some r \<longrightarrow> \<not> startsWith (siName r) ''_'')
   \<and> (extractSymbolInfo node False = None \<longleftrightarrow>
        (symbol (info node) = None \<or>
         (\<exists>smb. symbol (info node) = Some smb \<and> startsWith (symName smb) ''_'')))
   \<and> (symbol (info node) = Some smb \<longrightarrow>
        (\<exists>r'. extractSymbolInfo node True = Some r' \<and> siName r' = symName smb))
   \<and> (symbol (info node) = Some smb \<and> \<not> startsWith (symName smb) ''_'' \<and>
        hasModifier node PrivateKeyword \<longrightarrow>
        (\<exists>r' ms. extractSymbolInfo node False = Some r' \<and> siName r' = symName smb \<and>
                  siModifiers r' = Some ms \<and> ''private'' \<in> set ms))"
proof (intro conjI impI)
  assume a: "extractSymbolInfo node False = Some r"
  then have "extractSymbolInfo node False \<noteq> None" by simp
  then obtain smb' where s: "symbol (info node) = Some smb'" "\<not> startsWith (symName smb') ''_''"
    unfolding extractSymbolInfo_None by auto
  from extractSymbolInfo_Some[OF s(1), of False] s(2) a have "siName r = symName smb'" by auto
  then show "\<not> startsWith (siName r) ''_''" using s(2) by simp
next
  show "extractSymbolInfo node False = None \<longleftrightarrow>
        (symbol (info node) = None \<or>
         (\<exists>smb. symbol (info node) = Some smb \<and> startsWith (symName smb) ''_''))"
    unfolding extractSymbolInfo_None by simp
next
  assume "symbol (info node) = Some smb"
  from extractSymbolInfo_Some[OF this, of True]
  show "\<exists>r'. extractSymbolInfo node True = Some r' \<and> siName r' = symName smb"
    by auto
next
  assume a: "symbol (info node) = Some smb \<and> \<not> startsWith (symName smb) ''_'' \<and>
        hasModifier node PrivateKeyword"
  then have p: "''private'' \<in> set (modifierNames node)"
    using private_in_modifierNames by blast
  then have l: "length (modifierNames node) > 0" by (cases "modifierNames node") auto
  from a extractSymbolInfo_Some[of node smb False] obtain r' where
    "extractSymbolInfo node False = Some r'" "siName r' = symName smb"
    "siModifiers r' = (if length (modifierNames node) > 0 then Some (modifierNames node) else None)"
    by blast
  then show "\<exists>r' ms. extractSymbolInfo node False = Some r' \<and> siName r' = symName smb \<and>
                  siModifiers r' = Some ms \<and> ''private'' \<in> set ms"
    using p l by auto
qed

theorem extractSymbolInfo_private_filter_witness:
  "extractSymbolInfo underscoreVariable False = None
   \<and> map_option siName (extractSymbolInfo underscoreVariable True) = Some ''_hidden''
   \<and> hasModifier privateProperty PrivateKeyword
   \<and> map_option siName (extractSymbolInfo privateProperty False) = Some ''v''
   \<and> map_option siModifiers (extractSymbolInfo privateProperty False) = Some (Some [''private''])"
proof -
  have s1: "symbol (info underscoreVariable) = Some \<lparr> symName = ''_hidden'', jsDocTags = [] \<rparr>"
    by code_simp
  have u: "startsWith ''_hidden'' ''_''" by code_simp
  have 1: "extractSymbolInfo underscoreVariable False = None"
    using extractSymbolInfo_private_filter[of underscoreVariable] s1 u by simp
  obtain r' where r': "extractSymbolInfo underscoreVariable True = Some r'" "siName r' = ''_hidden''"
    using extractSymbolInfo_private_filter[of underscoreVariable _ "\<lparr> symName = ''_hidden'', jsDocTags = [] \<rparr>"] s1
    by auto
  have 3: "hasModifier privateProperty PrivateKeyword" by code_simp
  have 4: "map_option siName (extractSymbolInfo privateProperty False) = Some ''v''" by code_simp
  have 5: "map_option siModifiers (extractSymbolInfo privateProperty False) = Some (Some [''private''])"
    by code_simp
  show ?thesis using 1 r' 3 4 5 by simp
qed

subsection \<open>The class example\<close>

text \<open>
  Claim C3, as the code has it. For the file \<^verbatim>\<open>class C { private v = 0; m(){ return this.v; } }\<close>,
  \<open>analyzeFile\<close> with the analysis type \<open>all\<close> and \<open>includePrivate\<close> false reports 3
  symbols, the class, the property \<open>v\<close> and the method (the name \<open>v\<close> has no leading
  underscore), and the complexity 1, that of the method alone.
\<close>

theorem analyze_file_class_example:
  "analyzeFile exampleEnv classParams = ([''src/c.ts''], Inr classResult)
   \<and> totalSymbols (afSummary classResult) = 3
   \<and> complexity (afSummary classResult) = 1
   \<and> map siName (anSymbols (analyzeSourceFile classFile AtAll 2 False)) = [''C'', ''v'', ''m'']
   \<and> anComplexity (analyzeSourceFile classFile AtAll 2 False) = getNodeComplexity (children classC ! 2)"
  by code_simp

text \<open>The claim as stated has 2 symbols and a complexity of at least 2.\<close>

theorem analyze_file_class_example_counterexample:
  "analyzeFile exampleEnv classParams = ([''src/c.ts''], Inr classResult)
   \<and> totalSymbols (afSummary classResult) \<noteq> 2
   \<and> \<not> (2 \<le> complexity (afSummary classResult))"
  by code_simp

subsection \<open>Reference kinds\<close>

lemma getReferenceKind_cases:
  "(getReferenceKind r = RkCall \<longleftrightarrow> parentKind r = Some CallExpression)
   \<and> (getReferenceKind r = RkImport \<longleftrightarrow> parentKind r = Some ImportSpecifier)
   \<and> (getReferenceKind r = RkWrite \<longleftrightarrow> parentIsAssignment r)
   \<and> (getReferenceKind r = RkRead \<longleftrightarrow>
        parentKind r \<noteq> Some CallExpression \<and> parentKind r \<noteq> Some ImportSpecifier \<and>
        \<not> parentIsAssignment r)"
  by (cases "getParent r")
     (auto simp: getReferenceKind_def parentKind_def parentIsAssignment_def)

lemma slice0_subset: "set (slice0 xs n) \<subseteq> set xs"
  by (auto simp: slice0_def dest: in_set_takeD)

lemma map_filter_set: "e \<in> set (List.map_filter f xs) \<Longrightarrow> \<exists>x \<in> set xs. f x = Some e"
  by (auto simp: List.map_filter_def)

lemma findReferences_Inr:
  assumes "findReferences env params = (loaded, Inr res)"
  shows "\<exists>node. frReferences res =
           slice0 (List.map_filter referenceEntry (referenceNodes env loaded node)) (frMaxResults params)"
proof (cases "validatePath (cwd env) (minimatch env) (frFilePath params)")
  case (Inl e)
  then show ?thesis using assms by (simp add: findReferences_def)
next
  case v: (Inr u)
  show ?thesis
  proof (cases "addSourceFileAtPath env (frFilePath params)")
    case (Inl e)
    then show ?thesis using assms v by (simp add: findReferences_def)
  next
    case sf: (Inr sourceFile)
    show ?thesis
    proof (cases "findSymbolAtPosition env sourceFile (frPosition params)")
      case None
      then show ?thesis using assms v sf by (simp add: findReferences_def)
    next
      case (Some rn)
      obtain r node where rn: "rn = (r, node)" by (cases rn)
      show ?thesis
      proof (cases "symbol (info node) = None")
        case True
        then show ?thesis using assms v sf Some rn by (simp add: findReferences_def)
      next
        case False
        then have "frReferences res =
           slice0 (List.map_filter referenceEntry (referenceNodes env loaded node)) (frMaxResults params)"
          using assms v sf Some rn by (auto simp: findReferences_def Let_def)
        then show ?thesis by blast
      qed
    qed
  qed
qed

lemma referenceNodes_from_service:
  assumes "x \<in> set (referenceNodes env loaded node)"
  shows "\<exists>ident. x \<in> set (concat (languageService env loaded ident))"
proof (cases "if getKind node = Identifier then Some node
            else find (\<lambda>d. getKind d = Identifier) (descendants node)")
  case None
  then show ?thesis using assms unfolding referenceNodes_def by simp
next
  case (Some ident)
  then have "x \<in> set (concat (languageService env loaded ident))"
    using assms unfolding referenceNodes_def by simp
  then show ?thesis by blast
qed

lemma referenceEntry_Some:
  assumes "referenceEntry x = Some e"
  shows "\<exists>n. getNode x = Some n \<and> reLocation e = nodeToLocation n \<and> reKind e = getReferenceKind x"
proof (cases "getNode x")
  case None
  then show ?thesis using assms by (simp add: referenceEntry_def)
next
  case (Some n)
  then have "e = \<lparr> reLocation = nodeToLocation n, reKind = getReferenceKind x, reContext = getContext n 3 \<rparr>"
    using assms by (simp add: referenceEntry_def)
  then show ?thesis using Some by simp
qed

text \<open>
  Every entry of the references \<open>findReferences\<close> returns comes from a node the language
  service reported, and its kind is the one \<open>getReferenceKind\<close> gives that node.
\<close>

lemma findReferences_entries:
  assumes a: "findReferences env params = (loaded, Inr res)"
  shows "list_all (\<lambda>e. \<exists>r n ident.
                  r \<in> set (concat (languageService env loaded ident)) \<and>
                  getNode r = Some n \<and> reLocation e = nodeToLocation n \<and>
                  reKind e = getReferenceKind r)
               (frReferences res)"
proof -
  from findReferences_Inr[OF a] obtain node where
    res: "frReferences res =
            slice0 (List.map_filter referenceEntry (referenceNodes env loaded node)) (frMaxResults params)"
    by blast
  show ?thesis
    unfolding list_all_iff
  proof
    fix e assume "e \<in> set (frReferences res)"
    then have "e \<in> set (List.map_filter referenceEntry (referenceNodes env loaded node))"
      unfolding res using slice0_subset by (rule rev_subsetD)
    from map_filter_set[OF this]
    obtain x where x: "x \<in> set (referenceNodes env loaded node)" "referenceEntry x = Some e"
      by (elim bexE) simp
    from referenceNodes_from_service[OF x(1)] obtain ident where
      i: "x \<in> set (concat (languageService env loaded ident))" by blast
    from referenceEntry_Some[OF x(2)] obtain n where
      n: "getNode x = Some n" "reLocation e = nodeToLocation n" "reKind e = getReferenceKind x"
      by blast
    show "\<exists>r n ident.
                r \<in> set (concat (languageService env loaded ident)) \<and>
                getNode r = Some n \<and> reLocation e = nodeToLocation n \<and>
                reKind e = getReferenceKind r"
      using i n by blast
  qed
qed

text \<open>
  Claim C4. \<open>getReferenceKind\<close> gives a node the kind \<open>call\<close> exactly when its parent is
  a call expression and \<open>import\<close> exactly when its parent is an import specifier, as the
  claim says. It gives the kind \<open>write\<close> exactly when the parent is a binary expression
  whose operator token is \<^verbatim>\<open>=\<close>: it does not test which operand the node is, and it knows
  no other assignment operator. So the code departs from the claim on two inputs. In the
  file \<^verbatim>\<open>let x = 1; let y = 2; x = y;\<close>, \<open>findReferences\<close> at the \<^verbatim>\<open>y\<close> of the
  assignment returns the name in the declaration (character 15) with the kind \<open>read\<close> and
  the right operand of the assignment (character 26) with the kind \<open>write\<close>, where the
  claim has \<open>read\<close>. In \<^verbatim>\<open>x += y\<close> the left operand \<^verbatim>\<open>x\<close>, which the statement
  assigns, gets the kind \<open>read\<close>, where the claim has \<open>write\<close>.
\<close>

theorem reference_kind_ignores_operand:
  "(getReferenceKind r = RkCall \<longleftrightarrow> parentKind r = Some CallExpression)
   \<and> (getReferenceKind r = RkImport \<longleftrightarrow> parentKind r = Some ImportSpecifier)
   \<and> (getReferenceKind r = RkWrite \<longleftrightarrow> parentIsAssignment r)
   \<and> map_sum id (\<lambda>res. map (\<lambda>e. (character (position (reLocation e)), reKind e)) (frReferences res))
        (snd (findReferences exampleEnv referenceParams)) =
       Inr [(15, RkRead), (26, RkWrite)]
   \<and> map_option getKind (getNode useOfY) = Some Identifier
   \<and> parentIsAssignment useOfY \<and> \<not> isLeftOperand useOfY
   \<and> getReferenceKind useOfY = RkWrite
   \<and> map_option getKind (getNode compoundTarget) = Some Identifier
   \<and> parentKind compoundTarget = Some BinaryExpression
   \<and> map_option getKind (Option.bind (getParent compoundTarget) getOperatorToken) = Some PlusEqualsToken
   \<and> isLeftOperand compoundTarget
   \<and> getReferenceKind compoundTarget = RkRead"
proof -
  have 1: "map_sum id (\<lambda>res. map (\<lambda>e. (character (position (reLocation e)), reKind e)) (frReferences res))
        (snd (findReferences exampleEnv referenceParams)) =
       Inr [(15, RkRead), (26, RkWrite)]"
    by code_simp
  have 2: "map_option getKind (getNode useOfY) = Some Identifier" by code_simp
  have 3: "parentIsAssignment useOfY" by code_simp
  have 4: "\<not> isLeftOperand useOfY" by code_simp
  have 5: "getReferenceKind useOfY = RkWrite" by code_simp
  have 6: "map_option getKind (getNode compoundTarget) = Some Identifier" by code_simp
  have 7: "parentKind compoundTarget = Some BinaryExpression" by code_simp
  have 8: "map_option getKind (Option.bind (getParent compoundTarget) getOperatorToken) = Some PlusEqualsToken"
    by code_simp
  have 9: "isLeftOperand compoundTarget" by code_simp
  have 10: "getReferenceKind compoundTarget = RkRead" by code_simp
  show ?thesis using getReferenceKind_cases[of r] 1 2 3 4 5 6 7 8 9 10 by blast
qed

subsection \<open>Severity of complexity findings\<close>

text \<open>The decimal rendering of a number determines the number.\<close>

lemma digit_inj:
  "a < 10 \<Longrightarrow> b < 10 \<Longrightarrow> ''0123456789'' ! a = ''0123456789'' ! b \<Longrightarrow> a = b"
proof -
  assume a: "a < 10" and b: "b < 10" and e: "''0123456789'' ! a = ''0123456789'' ! b"
  have d: "distinct ''0123456789''" by simp
  have l: "length ''0123456789'' = 10" by simp
  from nth_eq_iff_index_eq[OF d] a b e l show "a = b" by simp
qed

lemma string_of_nat_nonempty: "string_of_nat n \<noteq> []"
  by (simp add: string_of_nat.simps[of n])

lemma string_of_nat_inj: "string_of_nat m = string_of_nat n \<Longrightarrow> m = n"
proof (induction m arbitrary: n rule: string_of_nat.induct)
  case (1 m)
  show ?case
  proof (cases "m < 10")
    case m: True
    show ?thesis
    proof (cases "n < 10")
      case n: True
      from 1(2) m n have "''0123456789'' ! m = ''0123456789'' ! n"
        by (simp add: string_of_nat.simps[of m] string_of_nat.simps[of n])
      from digit_inj[OF m n this] show ?thesis .
    next
      case n: False
      from 1(2) m n have "[''0123456789'' ! m] = string_of_nat (n div 10) @ [''0123456789'' ! (n mod 10)]"
        by (simp add: string_of_nat.simps[of m] string_of_nat.simps[of n])
      then have "string_of_nat (n div 10) = []" by simp
      then show ?thesis using string_of_nat_nonempty by blast
    qed
  next
    case m: False
    show ?thesis
    proof (cases "n < 10")
      case n: True
      from 1(2) m n have "string_of_nat (m div 10) @ [''0123456789'' ! (m mod 10)] = [''0123456789'' ! n]"
        by (simp add: string_of_nat.simps[of m] string_of_nat.simps[of n])
      then have "string_of_nat (m div 10) = []" by simp
      then show ?thesis using string_of_nat_nonempty by blast
    next
      case n: False
      from 1(2) m n have
        "string_of_nat (m div 10) @ [''0123456789'' ! (m mod 10)] =
         string_of_nat (n div 10) @ [''0123456789'' ! (n mod 10)]"
        by (simp add: string_of_nat.simps[of m] string_of_nat.simps[of n])
      then have e: "string_of_nat (m div 10) = string_of_nat (n div 10)"
        and d: "''0123456789'' ! (m mod 10) = ''0123456789'' ! (n mod 10)"
        by simp_all
      from 1(1)[OF m e] have q: "m div 10 = n div 10" .
      have "m mod 10 < 10" "n mod 10 < 10" by simp_all
      from digit_inj[OF this d] have r: "m mod 10 = n mod 10" .
      have "m = 10 * (m div 10) + m mod 10" by simp
      also have "\<dots> = 10 * (n div 10) + n mod 10" using q r by simp
      also have "\<dots> = n" by simp
      finally show ?thesis .
    qed
  qed
qed

lemma detectComplexitySmells_append:
  "detectComplexitySmells sf smells th = smells @ detectComplexitySmells sf [] th"
  by (simp add: detectComplexitySmells_def)

lemma andThen_keeps:
  assumes r: "set base \<subseteq> set (fst r)"
             "\<forall>s \<in> set (fst r). s \<in> set base \<or> smType s \<noteq> CatComplexity"
    and step: "\<And>smells. set smells \<subseteq> set (fst (step smells))"
              "\<And>smells. \<forall>s \<in> set (fst (step smells)). s \<in> set smells \<or> smType s \<noteq> CatComplexity"
  shows "set base \<subseteq> set (fst (andThen r step)) \<and>
         (\<forall>s \<in> set (fst (andThen r step)). s \<in> set base \<or> smType s \<noteq> CatComplexity)"
proof (cases "snd r")
  case None
  then have a: "andThen r step = step (fst r)" by (simp add: andThen_def)
  have 1: "set base \<subseteq> set (fst (step (fst r)))" using r(1) step(1)[of "fst r"] by blast
  have 2: "\<forall>s \<in> set (fst (step (fst r))). s \<in> set base \<or> smType s \<noteq> CatComplexity"
    using r(2) step(2)[of "fst r"] by blast
  show ?thesis unfolding a using 1 2 by blast
next
  case (Some e)
  then have "andThen r step = r" by (simp add: andThen_def)
  then show ?thesis using r by simp
qed

lemma pushFindings_keeps:
  assumes "cat \<noteq> CatComplexity"
  shows "set smells \<subseteq> set (pushFindings cat fs smells)"
        "\<forall>s \<in> set (pushFindings cat fs smells). s \<in> set smells \<or> smType s \<noteq> CatComplexity"
  using assms by (auto simp: pushFindings_def)

lemma detector_steps:
  "set smells \<subseteq> set (fst (if c then detectNamingSmells d sf smells else (smells, None)))"
  "\<forall>s \<in> set (fst (if c then detectNamingSmells d sf smells else (smells, None))).
      s \<in> set smells \<or> smType s \<noteq> CatComplexity"
  "set smells \<subseteq> set (fst (if c then detectUnusedCode d sf smells else (smells, None)))"
  "\<forall>s \<in> set (fst (if c then detectUnusedCode d sf smells else (smells, None))).
      s \<in> set smells \<or> smType s \<noteq> CatComplexity"
  "set smells \<subseteq> set (fst (if c then detectAsyncIssues d sf smells else (smells, None)))"
  "\<forall>s \<in> set (fst (if c then detectAsyncIssues d sf smells else (smells, None))).
      s \<in> set smells \<or> smType s \<noteq> CatComplexity"
  "set smells \<subseteq> set (fst (if c then detectCouplingIssues d sf smells else (smells, None)))"
  "\<forall>s \<in> set (fst (if c then detectCouplingIssues d sf smells else (smells, None))).
      s \<in> set smells \<or> smType s \<noteq> CatComplexity"
  using pushFindings_keeps[where cat = CatNaming and smells = smells]
        pushFindings_keeps[where cat = CatUnusedCode and smells = smells]
        pushFindings_keeps[where cat = CatAsyncIssues and smells = smells]
        pushFindings_keeps[where cat = CatCoupling and smells = smells]
  by (simp_all add: detectNamingSmells_def detectUnusedCode_def detectAsyncIssues_def
                    detectCouplingIssues_def)

text \<open>
  One file that loads: the smells found before stay in the list, and what the task adds to
  it in the category \<open>complexity\<close> is what \<open>detectComplexitySmells\<close> pushes.
\<close>

lemma smellsOfFile_loaded:
  assumes v: "validatePath (cwd env) (minimatch env) f = Inr ()"
      and l: "fileSystem env f = Some sf"
  shows "set (if CatComplexity \<in> set cats then detectComplexitySmells sf (snd st) th else snd st)
           \<subseteq> set (snd (smellsOfFile env d cats th st f)) \<and>
         (\<forall>s \<in> set (snd (smellsOfFile env d cats th st f)).
            s \<in> set (if CatComplexity \<in> set cats then detectComplexitySmells sf (snd st) th else snd st)
            \<or> smType s \<noteq> CatComplexity)"
proof -
  let ?base = "if CatComplexity \<in> set cats then detectComplexitySmells sf (snd st) th else snd st"
  let ?r0 = "(?base, None :: error option)"
  let ?s1 = "\<lambda>smells. if CatNaming \<in> set cats then detectNamingSmells d sf smells else (smells, None)"
  let ?s2 = "\<lambda>smells. if CatUnusedCode \<in> set cats then detectUnusedCode d sf smells else (smells, None)"
  let ?s3 = "\<lambda>smells. if CatAsyncIssues \<in> set cats then detectAsyncIssues d sf smells else (smells, None)"
  let ?s4 = "\<lambda>smells. if CatCoupling \<in> set cats then detectCouplingIssues d sf smells else (smells, None)"
  have e: "snd (smellsOfFile env d cats th st f) =
             fst (andThen (andThen (andThen (andThen ?r0 ?s1) ?s2) ?s3) ?s4)"
    using v l by (simp add: smellsOfFile_def addSourceFileAtPath_def Let_def)
  have 0: "set ?base \<subseteq> set (fst ?r0) \<and>
           (\<forall>s \<in> set (fst ?r0). s \<in> set ?base \<or> smType s \<noteq> CatComplexity)"
    by simp
  have 1: "set ?base \<subseteq> set (fst (andThen ?r0 ?s1)) \<and>
           (\<forall>s \<in> set (fst (andThen ?r0 ?s1)). s \<in> set ?base \<or> smType s \<noteq> CatComplexity)"
    using 0 by (intro andThen_keeps detector_steps) simp_all
  have 2: "set ?base \<subseteq> set (fst (andThen (andThen ?r0 ?s1) ?s2)) \<and>
           (\<forall>s \<in> set (fst (andThen (andThen ?r0 ?s1) ?s2)). s \<in> set ?base \<or> smType s \<noteq> CatComplexity)"
    using 1 by (intro andThen_keeps detector_steps) simp_all
  have 3: "set ?base \<subseteq> set (fst (andThen (andThen (andThen ?r0 ?s1) ?s2) ?s3)) \<and>
           (\<forall>s \<in> set (fst (andThen (andThen (andThen ?r0 ?s1) ?s2) ?s3)).
               s \<in> set ?base \<or> smType s \<noteq> CatComplexity)"
    using 2 by (intro andThen_keeps detector_steps) simp_all
  have 4: "set ?base \<subseteq> set (fst (andThen (andThen (andThen (andThen ?r0 ?s1) ?s2) ?s3) ?s4)) \<and>
           (\<forall>s \<in> set (fst (andThen (andThen (andThen (andThen ?r0 ?s1) ?s2) ?s3) ?s4)).
               s \<in> set ?base \<or> smType s \<noteq> CatComplexity)"
    using 3 by (intro andThen_keeps detector_steps) simp_all
  show ?thesis unfolding e using 4 .
qed

lemma smellsOfFile_not_loaded:
  assumes "validatePath (cwd env) (minimatch env) f \<noteq> Inr () \<or> fileSystem env f = None"
  shows "snd (smellsOfFile env d cats th st f) = snd st"
proof (cases "validatePath (cwd env) (minimatch env) f")
  case (Inl e)
  then show ?thesis by (simp add: smellsOfFile_def)
next
  case (Inr u)
  then have "fileSystem env f = None" using assms by simp
  then show ?thesis using Inr by (simp add: smellsOfFile_def addSourceFileAtPath_def)
qed

lemma smellsOfFile_mono: "set (snd st) \<subseteq> set (snd (smellsOfFile env d cats th st f))"
proof (cases "validatePath (cwd env) (minimatch env) f = Inr () \<and> fileSystem env f \<noteq> None")
  case True
  then obtain sf where v: "validatePath (cwd env) (minimatch env) f = Inr ()"
    and l: "fileSystem env f = Some sf" by auto
  have "set (snd st) \<subseteq>
        set (if CatComplexity \<in> set cats then detectComplexitySmells sf (snd st) th else snd st)"
    by (simp add: detectComplexitySmells_def)
  with smellsOfFile_loaded[OF v l, of cats st th d] show ?thesis by blast
next
  case False
  then show ?thesis using smellsOfFile_not_loaded[of env f d cats th st] by auto
qed

lemma smellsOfFile_complexity:
  assumes "s \<in> set (snd (smellsOfFile env d cats th st f))" and "smType s = CatComplexity"
  shows "s \<in> set (snd st) \<or>
         (CatComplexity \<in> set cats \<and> validatePath (cwd env) (minimatch env) f = Inr () \<and>
          (\<exists>sf. fileSystem env f = Some sf \<and> s \<in> set (detectComplexitySmells sf [] th)))"
proof (cases "validatePath (cwd env) (minimatch env) f = Inr () \<and> fileSystem env f \<noteq> None")
  case True
  then obtain sf where v: "validatePath (cwd env) (minimatch env) f = Inr ()"
    and l: "fileSystem env f = Some sf" by auto
  from smellsOfFile_loaded[OF v l, of cats st th d] assms
  have m: "s \<in> set (if CatComplexity \<in> set cats then detectComplexitySmells sf (snd st) th else snd st)"
    by blast
  show ?thesis
  proof (cases "CatComplexity \<in> set cats")
    case True
    with m have "s \<in> set (snd st @ detectComplexitySmells sf [] th)"
      using detectComplexitySmells_append[of sf "snd st" th] by simp
    then show ?thesis using True v l by auto
  next
    case False
    with m show ?thesis by simp
  qed
next
  case False
  then show ?thesis using smellsOfFile_not_loaded[of env f d cats th st] assms(1) by auto
qed

lemma foldl_smellsOfFile_mono:
  "set (snd st) \<subseteq> set (snd (foldl (smellsOfFile env d cats th) st files))"
proof (induction files arbitrary: st)
  case Nil
  show ?case by simp
next
  case (Cons f files)
  have "set (snd st) \<subseteq> set (snd (smellsOfFile env d cats th st f))" by (rule smellsOfFile_mono)
  also have "\<dots> \<subseteq> set (snd (foldl (smellsOfFile env d cats th) (smellsOfFile env d cats th st f) files))"
    by (rule Cons.IH)
  finally show ?case by simp
qed

lemma foldl_smellsOfFile_contains:
  assumes "f \<in> set files" and "CatComplexity \<in> set cats"
      and "validatePath (cwd env) (minimatch env) f = Inr ()" and "fileSystem env f = Some sf"
  shows "set (detectComplexitySmells sf [] th) \<subseteq> set (snd (foldl (smellsOfFile env d cats th) st files))"
  using assms(1)
proof (induction files arbitrary: st)
  case Nil
  then show ?case by simp
next
  case (Cons g files)
  show ?case
  proof (cases "f = g")
    case True
    have "set (detectComplexitySmells sf [] th) \<subseteq> set (detectComplexitySmells sf (snd st) th)"
      using detectComplexitySmells_append[of sf "snd st" th] by simp
    also have "\<dots> \<subseteq> set (snd (smellsOfFile env d cats th st f))"
      using smellsOfFile_loaded[OF assms(3,4), of cats st th d] assms(2) by simp
    also have "\<dots> \<subseteq> set (snd (foldl (smellsOfFile env d cats th) (smellsOfFile env d cats th st f) files))"
      by (rule foldl_smellsOfFile_mono)
    finally show ?thesis using True by simp
  next
    case False
    then have "f \<in> set files" using Cons.prems by simp
    from Cons.IH[OF this] show ?thesis by simp
  qed
qed

lemma foldl_smellsOfFile_complexity:
  assumes "s \<in> set (snd (foldl (smellsOfFile env d cats th) st files))" and "smType s = CatComplexity"
  shows "s \<in> set (snd st) \<or>
         (\<exists>f \<in> set files. \<exists>sf. fileSystem env f = Some sf \<and> s \<in> set (detectComplexitySmells sf [] th))"
  using assms(1)
proof (induction files arbitrary: st)
  case Nil
  then show ?case by simp
next
  case (Cons g files)
  from Cons.prems have "s \<in> set (snd (foldl (smellsOfFile env d cats th) (smellsOfFile env d cats th st g) files))"
    by simp
  from Cons.IH[OF this] show ?case
  proof
    assume "s \<in> set (snd (smellsOfFile env d cats th st g))"
    from smellsOfFile_complexity[OF this assms(2)] show ?thesis by auto
  next
    assume "\<exists>f \<in> set files. \<exists>sf. fileSystem env f = Some sf \<and> s \<in> set (detectComplexitySmells sf [] th)"
    then show ?thesis by auto
  qed
qed

lemma functionComplexitySmells_eq:
  "functionComplexitySmells th func =
     (if int (getNodeComplexity func) > complexityThresholdOf th
      then [cyclomaticFinding
              (if int (getNodeComplexity func) > complexityThresholdOf th * 2 then High else Medium) func]
      else [])"
  by (simp add: functionComplexitySmells_def cyclomaticFinding_def Let_def)

lemma cyclomaticFinding_eq:
  assumes "cyclomaticFinding sev func = cyclomaticFinding sev' func'"
  shows "sev = sev'" "getNodeComplexity func = getNodeComplexity func'"
proof -
  from assms have "smSeverity (cyclomaticFinding sev func) = smSeverity (cyclomaticFinding sev' func')"
    by simp
  then show "sev = sev'" by (simp add: cyclomaticFinding_def)
  from assms have "smMessage (cyclomaticFinding sev func) = smMessage (cyclomaticFinding sev' func')"
    by simp
  then have "string_of_nat (getNodeComplexity func) = string_of_nat (getNodeComplexity func')"
    by (simp add: cyclomaticFinding_def)
  then show "getNodeComplexity func = getNodeComplexity func'" by (rule string_of_nat_inj)
qed

lemma cyclomaticFinding_suggestion:
  "smSuggestion (cyclomaticFinding sev func) =
     Some ''Consider breaking this function into smaller, more focused functions''"
  by (simp add: cyclomaticFinding_def)

lemma other_suggestions:
  "s \<in> set (fileSizeSmells sf th) \<Longrightarrow>
     smSuggestion s = Some ''Consider splitting this file into smaller, more focused modules''"
  "s \<in> set (functionSizeSmells th g) \<Longrightarrow>
     smSuggestion s = Some ''Consider breaking this function into smaller functions''"
  "s \<in> set (classComplexitySmells th cls) \<Longrightarrow>
     smSuggestion s = Some ''Consider splitting this class using Single Responsibility Principle''"
  by (auto simp: fileSizeSmells_def functionSizeSmells_def classComplexitySmells_def Let_def
           split: if_splits)

lemma cyclomaticFinding_not_others:
  "cyclomaticFinding sev func \<notin> set (fileSizeSmells sf th)"
  "cyclomaticFinding sev func \<notin> set (functionSizeSmells th g)"
  "cyclomaticFinding sev func \<notin> set (classComplexitySmells th cls)"
proof -
  show "cyclomaticFinding sev func \<notin> set (fileSizeSmells sf th)"
  proof
    assume "cyclomaticFinding sev func \<in> set (fileSizeSmells sf th)"
    from other_suggestions(1)[OF this] show False by (simp add: cyclomaticFinding_suggestion)
  qed
  show "cyclomaticFinding sev func \<notin> set (functionSizeSmells th g)"
  proof
    assume "cyclomaticFinding sev func \<in> set (functionSizeSmells th g)"
    from other_suggestions(2)[OF this] show False by (simp add: cyclomaticFinding_suggestion)
  qed
  show "cyclomaticFinding sev func \<notin> set (classComplexitySmells th cls)"
  proof
    assume "cyclomaticFinding sev func \<in> set (classComplexitySmells th cls)"
    from other_suggestions(3)[OF this] show False by (simp add: cyclomaticFinding_suggestion)
  qed
qed

lemma cyclomaticFinding_type: "smType (cyclomaticFinding sev func) = CatComplexity"
  by (simp add: cyclomaticFinding_def)

lemma cyclomaticFinding_in_detect:
  assumes "cyclomaticFinding sev func \<in> set (detectComplexitySmells sf [] th)"
  shows "complexityThresholdOf th < int (getNodeComplexity func) \<and>
         sev = (if int (getNodeComplexity func) > complexityThresholdOf th * 2 then High else Medium)"
proof -
  from assms cyclomaticFinding_not_others[of sev func]
  obtain g where g: "cyclomaticFinding sev func \<in> set (functionComplexitySmells th g)"
    by (auto simp: detectComplexitySmells_def)
  then have t: "complexityThresholdOf th < int (getNodeComplexity g)"
    and e: "cyclomaticFinding sev func =
            cyclomaticFinding
              (if int (getNodeComplexity g) > complexityThresholdOf th * 2 then High else Medium) g"
    by (auto simp: functionComplexitySmells_eq split: if_splits)
  from cyclomaticFinding_eq[OF e] t show ?thesis by simp
qed

lemma function_in_detect:
  assumes "func \<in> set (getFunctions sf)"
  shows "set (functionComplexitySmells th func) \<subseteq> set (detectComplexitySmells sf [] th)"
  using assms by (auto simp: detectComplexitySmells_def)

text \<open>
  Claim C1. The call of \<open>detectCodeSmells\<close> asks for the category \<open>complexity\<close>, by
  default or in its list of categories, and \<open>func\<close> is a function declared at the top
  level of a file of the call that is in scope and loads: the file given, or one of those
  the search finds. With \<open>c\<close> the cyclomatic complexity of \<open>func\<close> and \<open>t\<close> the complexity
  threshold in force (10 when none or 0 is configured), the smells returned hold no finding
  for the cyclomatic complexity of \<open>func\<close> when \<open>c \<le> t\<close>; they hold one of severity
  \<open>medium\<close>, and of no other severity, when \<open>t < c \<le> 2 t\<close>, the value \<open>2 t\<close> itself
  included; and they hold one of severity \<open>high\<close>, and of no other severity, when \<open>c > t\<close>
  and \<open>c > 2 t\<close>. This holds whatever the other detectors push or throw.
\<close>

theorem complexity_finding_severity:
  assumes "CatComplexity \<in> set (smellCategories params)"
      and "analysed env params f sf"
      and "func \<in> set (getFunctions sf)"
  shows
    "\<exists>loaded r. detectCodeSmells env detectors params = (loaded, Inr r) \<and>
       (int (getNodeComplexity func) \<le> complexityThresholdOf (dsThreshold params) \<longrightarrow>
          (\<forall>sev. cyclomaticFinding sev func \<notin> set (dsSmells r))) \<and>
       (complexityThresholdOf (dsThreshold params) < int (getNodeComplexity func) \<and>
        int (getNodeComplexity func) \<le> 2 * complexityThresholdOf (dsThreshold params) \<longrightarrow>
          (\<forall>sev. cyclomaticFinding sev func \<in> set (dsSmells r) \<longleftrightarrow> sev = Medium)) \<and>
       (complexityThresholdOf (dsThreshold params) < int (getNodeComplexity func) \<and>
        2 * complexityThresholdOf (dsThreshold params) < int (getNodeComplexity func) \<longrightarrow>
          (\<forall>sev. cyclomaticFinding sev func \<in> set (dsSmells r) \<longleftrightarrow> sev = High))"
proof -
  let ?th = "dsThreshold params"
  let ?st = "foldl (smellsOfFile env detectors (smellCategories params) ?th) ([], []) (smellFiles env params)"
  let ?smells = "sort_key (\<lambda>s. severityOrder (smSeverity s)) (snd ?st)"
  let ?t = "complexityThresholdOf ?th"
  let ?c = "int (getNodeComplexity func)"
  obtain r where r: "detectCodeSmells env detectors params = (fst ?st, Inr r)" "dsSmells r = ?smells"
    by (simp add: detectCodeSmells_def Let_def)
  have s: "set (dsSmells r) = set (snd ?st)" unfolding r(2) by simp
  from assms(2) have f: "f \<in> set (smellFiles env params)"
    and v: "validatePath (cwd env) (minimatch env) f = Inr ()"
    and l: "fileSystem env f = Some sf"
    by (simp_all add: analysed_def)
  have sub: "set (functionComplexitySmells ?th func) \<subseteq> set (dsSmells r)"
    using function_in_detect[OF assms(3), of ?th]
          foldl_smellsOfFile_contains[OF f assms(1) v l, of ?th detectors "([], [])"]
    unfolding s by blast
  have fwd: "cyclomaticFinding (if ?c > ?t * 2 then High else Medium) func \<in> set (dsSmells r)"
    if "?t < ?c"
    using sub that by (simp add: functionComplexitySmells_eq)
  have bwd: "?t < ?c \<and> sev = (if ?c > ?t * 2 then High else Medium)"
    if m: "cyclomaticFinding sev func \<in> set (dsSmells r)" for sev
  proof -
    from m have "cyclomaticFinding sev func \<in> set (snd ?st)" unfolding s .
    from foldl_smellsOfFile_complexity[OF this cyclomaticFinding_type]
    obtain sf' where "cyclomaticFinding sev func \<in> set (detectComplexitySmells sf' [] ?th)"
      by auto
    from cyclomaticFinding_in_detect[OF this] show ?thesis .
  qed
  have 1: "?c \<le> ?t \<longrightarrow> (\<forall>sev. cyclomaticFinding sev func \<notin> set (dsSmells r))"
    using bwd by fastforce
  have 2: "?t < ?c \<and> ?c \<le> 2 * ?t \<longrightarrow>
             (\<forall>sev. cyclomaticFinding sev func \<in> set (dsSmells r) \<longleftrightarrow> sev = Medium)"
  proof (intro impI allI)
    fix sev assume a: "?t < ?c \<and> ?c \<le> 2 * ?t"
    then have n: "\<not> ?c > ?t * 2" by simp
    show "cyclomaticFinding sev func \<in> set (dsSmells r) \<longleftrightarrow> sev = Medium"
    proof
      assume "cyclomaticFinding sev func \<in> set (dsSmells r)"
      from bwd[OF this] n show "sev = Medium" by simp
    next
      assume "sev = Medium"
      with fwd n a show "cyclomaticFinding sev func \<in> set (dsSmells r)" by simp
    qed
  qed
  have 3: "?t < ?c \<and> 2 * ?t < ?c \<longrightarrow>
             (\<forall>sev. cyclomaticFinding sev func \<in> set (dsSmells r) \<longleftrightarrow> sev = High)"
  proof (intro impI allI)
    fix sev assume a: "?t < ?c \<and> 2 * ?t < ?c"
    then have n: "?c > ?t * 2" by simp
    show "cyclomaticFinding sev func \<in> set (dsSmells r) \<longleftrightarrow> sev = High"
    proof
      assume "cyclomaticFinding sev func \<in> set (dsSmells r)"
      from bwd[OF this] n show "sev = High" by simp
    next
      assume "sev = High"
      with fwd n a show "cyclomaticFinding sev func \<in> set (dsSmells r)" by simp
    qed
  qed
  show ?thesis using r(1) 1 2 3 by blast
qed

theorem complexity_finding_severity_witness:
  "CatComplexity \<in> set (smellCategories sweepParams)
   \<and> analysed sweepEnv sweepParams ''/work/project/src/g.ts'' branchFile
   \<and> analysed sweepEnv sweepParams ''/work/project/src/h.ts'' topLevelFile
   \<and> hd (getFunctions branchFile) \<in> set (getFunctions branchFile)
   \<and> hd (getFunctions topLevelFile) \<in> set (getFunctions topLevelFile)
   \<and> complexityThresholdOf (dsThreshold sweepParams) = 1
   \<and> getNodeComplexity (hd (getFunctions branchFile)) = 2
   \<and> getNodeComplexity (hd (getFunctions topLevelFile)) = 3
   \<and> (\<exists>loaded r. detectCodeSmells sweepEnv noDetectors sweepParams = (loaded, Inr r) \<and>
         cyclomaticFinding Medium (hd (getFunctions branchFile)) \<in> set (dsSmells r) \<and>
         cyclomaticFinding High (hd (getFunctions branchFile)) \<notin> set (dsSmells r))
   \<and> (\<exists>loaded r. detectCodeSmells sweepEnv noDetectors sweepParams = (loaded, Inr r) \<and>
         cyclomaticFinding High (hd (getFunctions topLevelFile)) \<in> set (dsSmells r) \<and>
         cyclomaticFinding Medium (hd (getFunctions topLevelFile)) \<notin> set (dsSmells r))
   \<and> analysed sweepEnv (sweepParams \<lparr> dsThreshold := None \<rparr>) ''/work/project/src/h.ts'' topLevelFile
   \<and> complexityThresholdOf None = 10
   \<and> (\<exists>loaded r. detectCodeSmells sweepEnv noDetectors (sweepParams \<lparr> dsThreshold := None \<rparr>) =
                      (loaded, Inr r) \<and>
         cyclomaticFinding Medium (hd (getFunctions topLevelFile)) \<notin> set (dsSmells r) \<and>
         cyclomaticFinding High (hd (getFunctions topLevelFile)) \<notin> set (dsSmells r))"
proof -
  have h0: "CatComplexity \<in> set (smellCategories sweepParams)" by code_simp
  have h0': "CatComplexity \<in> set (smellCategories (sweepParams \<lparr> dsThreshold := None \<rparr>))" by code_simp
  have a1: "analysed sweepEnv sweepParams ''/work/project/src/g.ts'' branchFile" by code_simp
  have a2: "analysed sweepEnv sweepParams ''/work/project/src/h.ts'' topLevelFile" by code_simp
  have a3: "analysed sweepEnv (sweepParams \<lparr> dsThreshold := None \<rparr>) ''/work/project/src/h.ts'' topLevelFile"
    by code_simp
  have m1: "hd (getFunctions branchFile) \<in> set (getFunctions branchFile)" by code_simp
  have m2: "hd (getFunctions topLevelFile) \<in> set (getFunctions topLevelFile)" by code_simp
  have t: "complexityThresholdOf (dsThreshold sweepParams) = 1" by code_simp
  have t': "complexityThresholdOf None = 10" by code_simp
  have t'': "dsThreshold (sweepParams \<lparr> dsThreshold := None \<rparr>) = None" by simp
  have c1: "getNodeComplexity (hd (getFunctions branchFile)) = 2" by code_simp
  have c2: "getNodeComplexity (hd (getFunctions topLevelFile)) = 3" by code_simp
  have w1: "\<exists>loaded r. detectCodeSmells sweepEnv noDetectors sweepParams = (loaded, Inr r) \<and>
         cyclomaticFinding Medium (hd (getFunctions branchFile)) \<in> set (dsSmells r) \<and>
         cyclomaticFinding High (hd (getFunctions branchFile)) \<notin> set (dsSmells r)"
    using complexity_finding_severity[OF h0 a1 m1, of noDetectors] unfolding t c1 by auto
  have w2: "\<exists>loaded r. detectCodeSmells sweepEnv noDetectors sweepParams = (loaded, Inr r) \<and>
         cyclomaticFinding High (hd (getFunctions topLevelFile)) \<in> set (dsSmells r) \<and>
         cyclomaticFinding Medium (hd (getFunctions topLevelFile)) \<notin> set (dsSmells r)"
    using complexity_finding_severity[OF h0 a2 m2, of noDetectors] unfolding t c2 by auto
  have w3: "\<exists>loaded r. detectCodeSmells sweepEnv noDetectors (sweepParams \<lparr> dsThreshold := None \<rparr>) =
                      (loaded, Inr r) \<and>
         cyclomaticFinding Medium (hd (getFunctions topLevelFile)) \<notin> set (dsSmells r) \<and>
         cyclomaticFinding High (hd (getFunctions topLevelFile)) \<notin> set (dsSmells r)"
    using complexity_finding_severity[OF h0' a3 m2, of noDetectors] unfolding t'' t' c2 by auto
  show ?thesis using h0 a1 a2 a3 m1 m2 t t' c1 c2 w1 w2 w3 by blast
qed


text \<open>
  The claim as stated has the severity \<open>high\<close> at exactly twice the threshold, and a
  finding for every function. With the threshold 1, the function
  \<^verbatim>\<open>function g(x) { if (x) { return 1; } return 0; }\<close> of complexity 2 gets the severity
  \<open>medium\<close>; and the function \<^verbatim>\<open>h\<close> of complexity 3 declared inside a namespace gets no
  finding, because \<open>detectComplexitySmells\<close> examines the functions \<open>getFunctions\<close>
  returns, those declared at the top level of the file.
\<close>

theorem complexity_twice_threshold_counterexample:
  "detectCodeSmells exampleEnv noDetectors severityParams = ([''src/g.ts''], Inr severityResult)
   \<and> map smSeverity (dsSmells severityResult) = [Medium]
   \<and> int (getNodeComplexity (hd (getFunctions branchFile))) =
       2 * complexityThresholdOf (dsThreshold severityParams)
   \<and> map (\<lambda>n. (getKind n, getNodeComplexity n))
         (filter (\<lambda>n. getKind n = FunctionDeclaration) (descendants (root namespaceFile))) =
       [(FunctionDeclaration, 3)]
   \<and> complexityThresholdOf (dsThreshold namespaceParams) = 1
   \<and> map_sum id dsSmells (snd (detectCodeSmells exampleEnv noDetectors namespaceParams)) = Inr []"
  by code_simp

subsection \<open>The analysis cache\<close>

lemma DiskCache_set_ok:
  assumes "\<not> failing c"
  shows "DiskCache_set c key v =
           (Inr (), c \<lparr> initialized := True, items := (items c)(key \<mapsto> storedForm v) \<rparr>)"
  using assms by (cases "initialized c") (simp_all add: DiskCache_set_def DiskCache_init_def)

lemma jsonRoundTrip_clean: "jsonClean v \<Longrightarrow> jsonRoundTrip v = v"
proof (induction v rule: jsonClean.induct)
  case (1 xs)
  have "(if x = JUndefined then JNull else jsonRoundTrip x) = x" if x: "x \<in> set xs" for x
  proof -
    from 1(2) x have n: "x \<noteq> JUndefined" and c: "jsonClean x" by auto
    from 1(1)[OF x c] n show ?thesis by simp
  qed
  then have "map (\<lambda>x. if x = JUndefined then JNull else jsonRoundTrip x) xs = xs"
    by (rule map_idI)
  then show ?case by simp
next
  case (2 kvs)
  have f: "filter (\<lambda>kv. snd kv \<noteq> JUndefined) kvs = kvs"
    using 2(2) by (simp add: filter_id_conv)
  have "(fst kv, jsonRoundTrip (snd kv)) = kv" if kv: "kv \<in> set kvs" for kv
  proof -
    from 2(2) kv have n: "snd kv \<noteq> JUndefined" and c: "jsonClean (snd kv)" by auto
    from 2(1)[OF kv c] show ?thesis by simp
  qed
  then have "map (\<lambda>kv. (fst kv, jsonRoundTrip (snd kv))) kvs = kvs"
    by (rule map_idI)
  then show ?case using f by simp
qed simp_all

lemma map_fixed: "map f xs = xs \<Longrightarrow> x \<in> set xs \<Longrightarrow> f x = x"
  by (induction xs) auto

lemma filter_length_id: "length (filter P xs) = length xs \<Longrightarrow> filter P xs = xs"
proof (induction xs)
  case (Cons a xs)
  have "length (filter P xs) \<le> length xs" by simp
  with Cons show ?case by (cases "P a") auto
qed simp

lemma jsonRoundTrip_fixed: "jsonRoundTrip v = v \<Longrightarrow> jsonClean v"
proof (induction v rule: jsonClean.induct)
  case (1 xs)
  have m: "map (\<lambda>x. if x = JUndefined then JNull else jsonRoundTrip x) xs = xs"
    using 1(2) by simp
  have "x \<noteq> JUndefined \<and> jsonClean x" if x: "x \<in> set xs" for x
  proof -
    from map_fixed[OF m x] have e: "(if x = JUndefined then JNull else jsonRoundTrip x) = x" .
    have n: "x \<noteq> JUndefined"
    proof
      assume "x = JUndefined"
      with e show False by simp
    qed
    with e have "jsonRoundTrip x = x" by simp
    from 1(1)[OF x this] n show ?thesis by simp
  qed
  then show ?case by simp
next
  case (2 kvs)
  let ?f = "filter (\<lambda>kv. snd kv \<noteq> JUndefined) kvs"
  have m: "map (\<lambda>kv. (fst kv, jsonRoundTrip (snd kv))) ?f = kvs"
    using 2(2) by simp
  have "length (map (\<lambda>kv. (fst kv, jsonRoundTrip (snd kv))) ?f) = length kvs"
    by (simp only: m)
  then have "length ?f = length kvs" by simp
  then have f: "?f = kvs" by (rule filter_length_id)
  have m2: "map (\<lambda>kv. (fst kv, jsonRoundTrip (snd kv))) kvs = kvs"
    using m by (simp only: f)
  have "snd kv \<noteq> JUndefined \<and> jsonClean (snd kv)" if kv: "kv \<in> set kvs" for kv
  proof -
    have "kv \<in> set ?f" using kv by (simp only: f)
    then have n: "snd kv \<noteq> JUndefined" by simp
    from map_fixed[OF m2 kv] have "(fst kv, jsonRoundTrip (snd kv)) = kv" .
    then have "jsonRoundTrip (snd kv) = snd kv" by (metis snd_conv)
    from 2(1)[OF kv this] n show ?thesis by simp
  qed
  then show ?case by simp
qed simp_all

text \<open>
  Claim C7. The storage works: its library calls do not throw. A result stored with
  \<open>setCachedAnalysis\<close> at the time \<open>t0\<close> and read with \<open>getCachedAnalysis\<close> at the time
  \<open>t1\<close> comes back as \<open>JSON.parse(JSON.stringify(data))\<close>, and the storage is left as it
  was, as long as \<open>t1 - t0\<close> does not exceed the time-to-live in force; what comes back is
  the data itself exactly when the data holds no \<open>undefined\<close> inside an array or as the
  value of a property. Once \<open>t1 - t0\<close> exceeds the time-to-live in force the read returns
  \<open>undefined\<close> and the entry is removed from the storage. The time-to-live in force is the
  configured one, or one hour when none or 0 is configured.
\<close>

theorem cache_round_trip:
  assumes "\<not> failing (analysisCache cm)"
      and "setCachedAnalysis cm t0 key data = (r, cm1)"
  shows
    "r = Inr ()
     \<and> (t1 - t0 \<le> ttl cm \<longrightarrow>
          fst (getCachedAnalysis cm1 t1 key) = Inr (jsonRoundTrip data) \<and>
          items (analysisCache (snd (getCachedAnalysis cm1 t1 key))) = items (analysisCache cm1))
     \<and> (jsonRoundTrip data = data \<longleftrightarrow> jsonClean data)
     \<and> (t1 - t0 > ttl cm \<longrightarrow>
          fst (getCachedAnalysis cm1 t1 key) = Inr JUndefined \<and>
          items (analysisCache (snd (getCachedAnalysis cm1 t1 key))) key = None)
     \<and> ttl (newCacheManager ttlOption) =
         (case ttlOption of None \<Rightarrow> 3600000 | Some n \<Rightarrow> if n = 0 then 3600000 else n)"
proof -
  let ?v = "\<lparr> arData = data, arTimestamp = t0, arContentHash = None \<rparr>"
  let ?w = "\<lparr> arData = jsonRoundTrip data, arTimestamp = t0, arContentHash = None \<rparr>"
  let ?c1 = "(analysisCache cm) \<lparr> initialized := True, items := (items (analysisCache cm))(key \<mapsto> ?w) \<rparr>"
  have w: "storedForm ?v = ?w" by (simp add: storedForm_def)
  have s: "r = Inr ()" "cm1 = cm \<lparr> analysisCache := ?c1 \<rparr>"
    using assms(2) DiskCache_set_ok[OF assms(1), of key ?v] unfolding w
    by (auto simp: setCachedAnalysis_def)
  have g: "DiskCache_get ?c1 key =
             (Inr (Some ?w), ?c1 \<lparr> stats := (stats ?c1) \<lparr> hits := hits (stats ?c1) + 1 \<rparr> \<rparr>)"
    using assms(1) by (simp add: DiskCache_get_def DiskCache_init_def)
  have within: "fst (getCachedAnalysis cm1 t1 key) = Inr (jsonRoundTrip data) \<and>
          items (analysisCache (snd (getCachedAnalysis cm1 t1 key))) = items (analysisCache cm1)"
    if "t1 - t0 \<le> ttl cm"
    using that unfolding s(2) getCachedAnalysis_def by (simp add: g)
  have after: "fst (getCachedAnalysis cm1 t1 key) = Inr JUndefined \<and>
          items (analysisCache (snd (getCachedAnalysis cm1 t1 key))) key = None"
    if "t1 - t0 > ttl cm"
    using that assms(1) unfolding s(2) getCachedAnalysis_def
    by (simp add: g DiskCache_delete_def DiskCache_init_def)
  have clean: "jsonRoundTrip data = data \<longleftrightarrow> jsonClean data"
    using jsonRoundTrip_clean jsonRoundTrip_fixed by blast
  have t: "ttl (newCacheManager ttlOption) =
         (case ttlOption of None \<Rightarrow> 3600000 | Some n \<Rightarrow> if n = 0 then 3600000 else n)"
    by (simp add: newCacheManager_def orDefault_def split: option.splits)
  show ?thesis using s(1) within after clean t by blast
qed

theorem cache_round_trip_witness:
  "\<not> failing (analysisCache (newCacheManager (Some 1000)))
   \<and> ttl (newCacheManager (Some 1000)) = 1000
   \<and> jsonClean (JObject [(''complexity'', JNumber 3)])
   \<and> fst (setCachedAnalysis (newCacheManager (Some 1000)) 0 ''k'' (JObject [(''complexity'', JNumber 3)])) = Inr ()
   \<and> fst (getCachedAnalysis
            (snd (setCachedAnalysis (newCacheManager (Some 1000)) 0 ''k'' (JObject [(''complexity'', JNumber 3)])))
            1000 ''k'') = Inr (JObject [(''complexity'', JNumber 3)])
   \<and> fst (getCachedAnalysis
            (snd (setCachedAnalysis (newCacheManager (Some 1000)) 0 ''k'' (JObject [(''complexity'', JNumber 3)])))
            1001 ''k'') = Inr JUndefined
   \<and> items (analysisCache (snd (getCachedAnalysis
            (snd (setCachedAnalysis (newCacheManager (Some 1000)) 0 ''k'' (JObject [(''complexity'', JNumber 3)])))
            1001 ''k''))) ''k'' = None"
proof -
  let ?cm = "newCacheManager (Some 1000)"
  let ?d = "JObject [(''complexity'', JNumber 3)]"
  have h1: "\<not> failing (analysisCache ?cm)" by (simp add: newCacheManager_def)
  obtain r cm1 where h2: "setCachedAnalysis ?cm 0 ''k'' ?d = (r, cm1)"
    by (cases "setCachedAnalysis ?cm 0 ''k'' ?d")
  have tt: "ttl ?cm = 1000"
    using cache_round_trip[OF h1 h2, where ttlOption = "Some 1000"] by simp
  have cl: "jsonClean ?d" by simp
  have rt: "jsonRoundTrip ?d = ?d"
    using cache_round_trip[OF h1 h2] cl by blast
  have a: "r = Inr ()"
    using cache_round_trip[OF h1 h2] by blast
  have b: "fst (getCachedAnalysis cm1 1000 ''k'') = Inr ?d"
    using cache_round_trip[OF h1 h2, of 1000] tt rt by simp
  have c: "fst (getCachedAnalysis cm1 1001 ''k'') = Inr JUndefined \<and>
           items (analysisCache (snd (getCachedAnalysis cm1 1001 ''k''))) ''k'' = None"
    using cache_round_trip[OF h1 h2, of 1001] tt by simp
  show ?thesis using h1 tt cl a b c unfolding h2 by simp
qed

text \<open>
  The claim as stated has the data come back unchanged, and an entry older than the
  configured time-to-live absent. The array \<^verbatim>\<open>[undefined]\<close> comes back as \<^verbatim>\<open>[null]\<close>,
  and an object whose property \<^verbatim>\<open>documentation\<close> is \<open>undefined\<close> comes back without the
  property; with the time-to-live 0 configured, an entry 1000 ms old is still served.
\<close>

theorem cache_round_trip_undefined_counterexample:
  "fst (getCachedAnalysis
          (snd (setCachedAnalysis (newCacheManager (Some 1000)) 0 ''k'' (JArray [JUndefined])))
          500 ''k'') = Inr (JArray [JNull])
   \<and> fst (getCachedAnalysis
          (snd (setCachedAnalysis (newCacheManager (Some 1000)) 0 ''k''
                  (JObject [(''name'', JString ''f''), (''documentation'', JUndefined)])))
          500 ''k'') = Inr (JObject [(''name'', JString ''f'')])
   \<and> fst (getCachedAnalysis
          (snd (setCachedAnalysis (newCacheManager (Some 0)) 0 ''k'' (JString ''result'')))
          1000 ''k'') = Inr (JString ''result'')"
  by code_simp

subsection \<open>Cache keys\<close>

lemma map_eq_list_all2: "list_all2 (\<lambda>x y. f x = f y) xs ys \<Longrightarrow> map f xs = map f ys"
  by (induction rule: list_all2_induct) auto

lemma serialize_same:
  "sameUpToKeyOrder v v' \<Longrightarrow> serializeJSONProperty K v = serializeJSONProperty K v'"
proof (induction arbitrary: K rule: sameUpToKeyOrder.induct)
  case (same v)
  show ?case by simp
next
  case (arrays xs ys)
  let ?g = "\<lambda>x. case serializeJSONProperty K x of None \<Rightarrow> ''null'' | Some t \<Rightarrow> t"
  from arrays have "list_all2 (\<lambda>x y. ?g x = ?g y) xs ys"
    by (rule list_all2_mono) simp
  then have "map ?g xs = map ?g ys" by (rule map_eq_list_all2)
  then show ?case by simp
next
  case (objects kvs kvs')
  let ?f = "\<lambda>kvs P. case map_of kvs P of
                        None \<Rightarrow> None
                      | Some v \<Rightarrow>
                          (case serializeJSONProperty K v of
                             None \<Rightarrow> None
                           | Some t \<Rightarrow> Some (quoteJSONString P @ '':'' @ t))"
  have "?f kvs P = ?f kvs' P" for P
  proof (cases "P \<in> set (map fst kvs)")
    case True
    with objects(4) obtain v v' where "map_of kvs P = Some v" "map_of kvs' P = Some v'"
      "serializeJSONProperty K v = serializeJSONProperty K v'"
      by blast
    then show ?thesis by simp
  next
    case False
    then have 1: "map_of kvs P = None" by (simp add: map_of_eq_None_iff)
    from False objects(3) have "P \<notin> set (map fst kvs')" by simp
    then have 2: "map_of kvs' P = None" by (simp add: map_of_eq_None_iff)
    show ?thesis by (simp add: 1 2)
  qed
  then have "?f kvs = ?f kvs'" by (rule ext)
  then show ?case by simp
qed

lemma sort_same_set:
  fixes xs ys :: "string list"
  assumes "distinct xs" "distinct ys" "set xs = set ys"
  shows "sort xs = sort ys"
proof (rule sorted_distinct_set_unique)
  show "sorted (sort xs)" "sorted (sort ys)" by simp_all
  show "distinct (sort xs)" "distinct (sort ys)" using assms by simp_all
  show "set (sort xs) = set (sort ys)" using assms by simp
qed

lemma normalizePart_same:
  assumes "sameUpToKeyOrder v v'"
  shows "normalizePart v = normalizePart v'"
  using assms
proof (cases rule: sameUpToKeyOrder.cases)
  case same
  then show ?thesis by simp
next
  case (arrays xs ys)
  then have "length xs = length ys" by (simp add: list_all2_lengthD)
  then have k: "sort (objectKeys v) = sort (objectKeys v')" using arrays by simp
  show ?thesis
    using serialize_same[OF assms, of "propertyList (sort (objectKeys v'))"] k arrays(1,2)
    by (simp add: JSON_stringify_def)
next
  case (objects kvs kvs')
  then have k: "sort (objectKeys v) = sort (objectKeys v')"
    using sort_same_set[of "map fst kvs" "map fst kvs'"] by simp
  show ?thesis
    using serialize_same[OF assms, of "propertyList (sort (objectKeys v'))"] k objects(1,2)
    by (simp add: JSON_stringify_def)
qed

text \<open>
  Claim C8. Two lists of parameters whose members are, one by one, the same up to the order
  of the keys of their objects, at any depth, get the same cache key.
\<close>

theorem generateCacheKey_key_order:
  assumes "list_all2 sameUpToKeyOrder parts parts'"
  shows "generateCacheKey sha256 parts = generateCacheKey sha256 parts'"
proof -
  from assms have "list_all2 (\<lambda>x y. normalizePart x = normalizePart y) parts parts'"
    by (rule list_all2_mono) (rule normalizePart_same)
  then have "map normalizePart parts = map normalizePart parts'" by (rule map_eq_list_all2)
  then show ?thesis by (simp add: generateCacheKey_def)
qed

theorem generateCacheKey_key_order_witness:
  "list_all2 sameUpToKeyOrder orderedParams reorderedParams
   \<and> orderedParams \<noteq> reorderedParams
   \<and> generateCacheKey (\<lambda>s. s) orderedParams = generateCacheKey (\<lambda>s. s) reorderedParams"
proof -
  have p: "sameUpToKeyOrder
             (JObject [(''line'', JNumber 3), (''character'', JNumber 7)])
             (JObject [(''character'', JNumber 7), (''line'', JNumber 3)])"
    by (rule sameUpToKeyOrder.objects) (auto intro: sameUpToKeyOrder.same)
  have o: "sameUpToKeyOrder
             (JObject [(''filePath'', JString ''src/a.ts''),
                       (''position'', JObject [(''line'', JNumber 3), (''character'', JNumber 7)]),
                       (''scope'', JString ''file'')])
             (JObject [(''scope'', JString ''file''),
                       (''position'', JObject [(''character'', JNumber 7), (''line'', JNumber 3)]),
                       (''filePath'', JString ''src/a.ts'')])"
    by (rule sameUpToKeyOrder.objects) (auto intro: sameUpToKeyOrder.same p)
  have h: "list_all2 sameUpToKeyOrder orderedParams reorderedParams"
    unfolding orderedParams_def reorderedParams_def
    by (simp add: o sameUpToKeyOrder.same)
  have n: "orderedParams \<noteq> reorderedParams"
    by (simp add: orderedParams_def reorderedParams_def)
  show ?thesis using generateCacheKey_key_order[OF h, of "\<lambda>s. s"] h n by simp
qed










subsection \<open>Type hierarchies\<close>

lemma processType_invariant:
  "distinct (map tiName (snd st)) \<and> set (map tiName (snd st)) \<subseteq> fst st \<Longrightarrow>
   distinct (map tiName (snd (processType tbl direction maxDepth ty depth st))) \<and>
   set (map tiName (snd (processType tbl direction maxDepth ty depth st)))
     \<subseteq> fst (processType tbl direction maxDepth ty depth st)"
  and processTypes_invariant:
  "distinct (map tiName (snd st2)) \<and> set (map tiName (snd st2)) \<subseteq> fst st2 \<Longrightarrow>
   distinct (map tiName (snd (processTypes tbl direction maxDepth tys depth st2))) \<and>
   set (map tiName (snd (processTypes tbl direction maxDepth tys depth st2)))
     \<subseteq> fst (processTypes tbl direction maxDepth tys depth st2)"
proof (induction tbl direction maxDepth ty depth st and tbl direction maxDepth tys depth st2
       rule: processType_processTypes.induct)
  case (1 tbl direction maxDepth ty depth visited hierarchy)
  show ?case
  proof (cases "depth > maxDepth")
    case True
    then show ?thesis using "1.prems" by simp
  next
    case d: False
    show ?thesis
    proof (cases "tySymbol (tbl ty)")
      case None
      then show ?thesis using "1.prems" d by simp
    next
      case (Some smb)
      show ?thesis
      proof (cases "tsName smb \<in> visited")
        case True
        then show ?thesis using "1.prems" d Some by simp
      next
        case nv: False
        show ?thesis
        proof (cases "tsDeclarations smb")
          case Nil
          then show ?thesis using "1.prems" d Some nv by auto
        next
          case (Cons decl rest)
          let ?ti = "\<lparr> tiName = tsName smb,
                        tiKind = getTypeKind (tdNode decl),
                        tiLocation = nodeToLocation (tdNode decl),
                        tiGenerics = getGenericParameters decl \<rparr>"
          have inv: "distinct (map tiName (snd (insert (tsName smb) visited, hierarchy @ [?ti]))) \<and>
                set (map tiName (snd (insert (tsName smb) visited, hierarchy @ [?ti])))
                  \<subseteq> fst (insert (tsName smb) visited, hierarchy @ [?ti])"
            using "1.prems" nv by auto
          show ?thesis
          proof (cases "direction = Ancestors \<or> direction = Both")
            case True
            then show ?thesis
              using "1.IH"[OF d Some nv Cons True inv] d Some nv Cons by simp
          next
            case False
            then show ?thesis using inv d Some nv Cons by simp
          qed
        qed
      qed
    qed
  qed
next
  case (2 tbl direction maxDepth depth st)
  then show ?case by simp
next
  case (3 tbl direction maxDepth baseType rest depth st)
  then show ?case by simp
qed

lemma processType_processTypes_total: "All processType_processTypes_dom"
  by (relation "inv_image (less_than <*lex*> less_than)
        (\<lambda>x. case x of
           Inl (tbl, direction, maxDepth, ty, depth, st) \<Rightarrow> (nat (maxDepth + 1 - depth), 0)
         | Inr (tbl, direction, maxDepth, tys, depth, st) \<Rightarrow>
             (nat (maxDepth + 1 - depth), Suc (length tys)))")
     auto

text \<open>
  Claim C10. For every type table, cyclic ones included, every starting node, direction and
  depth bound, the traversal of \<open>getTypeHierarchy\<close> terminates: its starting call lies in
  the domain of the recursion, whose calls descend in the depth that is left. Every type
  name occurs at most once in the hierarchy returned, since a name is pushed only when it
  was not yet in the set of visited names.
\<close>

theorem getTypeHierarchy_terminates_distinct:
  "processType_processTypes_dom (Inl (tbl, direction, maxDepth, typeRef (info node), 0, ({}, [])))
   \<and> distinct (map tiName (getTypeHierarchy tbl node direction maxDepth))"
proof
  show "processType_processTypes_dom (Inl (tbl, direction, maxDepth, typeRef (info node), 0, ({}, [])))"
    using processType_processTypes_total by (rule allE)
  show "distinct (map tiName (getTypeHierarchy tbl node direction maxDepth))"
    using processType_invariant[of "({}, [])" tbl direction maxDepth "typeRef (info node)" 0]
    by (simp add: getTypeHierarchy_def)
qed

lemma getTypeHierarchy_cyclic_example:
  "map tiName (getTypeHierarchy cyclicTypes (leaf ClassDeclaration) Both 5) = [''A'', ''B'']"
  by code_simp

end
